theory Spec2Isabelle
  imports Main "HOL-Library.Word"
begin

section \<open>JavaScript strings\<close>

text \<open>
  A JavaScript string is a sequence of UTF-16 code units. The regular expressions of
  the bot carry no \<open>u\<close> flag, so matching, \<open>replace\<close> and \<open>trim\<close> all work on
  code units. An ASCII literal of the source is written \<open>js ''...''\<close>; a character
  outside the Basic Multilingual Plane is its surrogate pair.
\<close>

type_synonym jschar = "16 word"
type_synonym jsstring = "jschar list"

definition js :: "string \<Rightarrow> jsstring" where
  "js s = map of_char s"

text \<open>
  \<open>String.prototype.trim\<close> strips the code units of WhiteSpace and LineTerminator
  (ECMAScript 2023, 22.1.3.32) from both ends.
\<close>

definition isWhiteSpace :: "jschar \<Rightarrow> bool" where
  "isWhiteSpace c =
     (c = 0x9 \<or> c = 0xA \<or> c = 0xB \<or> c = 0xC \<or> c = 0xD \<or> c = 0x20 \<or> c = 0xA0
      \<or> c = 0x1680 \<or> (0x2000 \<le> c \<and> c \<le> 0x200A) \<or> c = 0x2028 \<or> c = 0x2029
      \<or> c = 0x202F \<or> c = 0x205F \<or> c = 0x3000 \<or> c = 0xFEFF)"

definition trim :: "jsstring \<Rightarrow> jsstring" where
  "trim s = rev (dropWhile isWhiteSpace (rev (dropWhile isWhiteSpace s)))"

text \<open>
  \<open>s.replace(pat, rep)\<close> with a string \<open>pat\<close>: the first occurrence of \<open>pat\<close> in
  \<open>s\<close> is replaced, and \<open>s\<close> is returned as it is when there is none. The source
  only passes the empty replacement, so the \<open>$\<close> patterns of a replacement string
  are not modelled.
\<close>

fun replace_str :: "jsstring \<Rightarrow> jsstring \<Rightarrow> jsstring \<Rightarrow> jsstring" where
  "replace_str [] pat rep = (if pat = [] then rep else [])"
| "replace_str (c # cs) pat rep =
     (if take (length pat) (c # cs) = pat then rep @ drop (length pat) (c # cs)
      else c # replace_str cs pat rep)"

section \<open>Regular expressions\<close>

text \<open>
  The result of \<open>response.match(pattern)\<close> for a pattern without the \<open>g\<close> flag:
  \<open>null\<close> (here \<open>None\<close>) or a match array with its \<open>index\<close>, the matched text
  \<open>match[0]\<close> and \<open>match[1]\<close>, which is \<open>undefined\<close> (here \<open>None\<close>) when the
  pattern has no capturing group.
\<close>

record js_match =
  index :: nat
  whole :: jsstring
  group1 :: "jsstring option"

type_synonym regexp = "jsstring \<Rightarrow> js_match option"

text \<open>
  A pattern is given by its anchored matcher: on a suffix of the input, the length
  of the match that starts at its head and the first capture. The search tries the
  start positions from left to right, the end of the input included.
\<close>

type_synonym anchored = "jsstring \<Rightarrow> (nat \<times> jsstring option) option"

fun exec_from :: "anchored \<Rightarrow> nat \<Rightarrow> jsstring \<Rightarrow> js_match option" where
  "exec_from at i [] =
     (case at [] of
        Some (n, g) \<Rightarrow> Some \<lparr>index = i, whole = [], group1 = g\<rparr>
      | None \<Rightarrow> None)"
| "exec_from at i (c # cs) =
     (case at (c # cs) of
        Some (n, g) \<Rightarrow> Some \<lparr>index = i, whole = take n (c # cs), group1 = g\<rparr>
      | None \<Rightarrow> exec_from at (Suc i) cs)"

text \<open>
  \<open>/%Reaction\(([^)]+)\)%/\<close>: the literal \<open>%Reaction(\<close>, then a greedy run of one
  or more code units other than \<open>)\<close>, then \<open>)%\<close>. Giving back part of the run
  cannot help, since the code unit after a shorter run is not \<open>)\<close>; so the only
  candidate at a start position is the maximal run.
\<close>

definition reaction_at :: anchored where
  "reaction_at s =
     (if take 10 s = js ''%Reaction('' then
        let g = takeWhile (\<lambda>c. c \<noteq> 0x29) (drop 10 s) in
        if g \<noteq> [] \<and> take 2 (drop (10 + length g) s) = js '')%''
        then Some (10 + length g + 2, Some g) else None
      else None)"

definition reactionPattern :: regexp where
  "reactionPattern s = exec_from reaction_at 0 s"

text \<open>\<open>/%sendGif%/\<close>: a literal, with no capturing group.\<close>

definition sendGif_at :: anchored where
  "sendGif_at s = (if take 9 s = js ''%sendGif%'' then Some (9, None) else None)"

definition sendGifPattern :: regexp where
  "sendGifPattern s = exec_from sendGif_at 0 s"

section \<open>Command extraction\<close>

text \<open>
  The first component of \<open>extractCommand\<close> is typed \<open>string | null\<close> in the source,
  and is \<open>undefined\<close> at run time when the pattern has no first group.
\<close>

datatype js_value = Null | Undefined | Str jsstring

fun truthy :: "js_value \<Rightarrow> bool" where
  "truthy Null = False"
| "truthy Undefined = False"
| "truthy (Str s) = (s \<noteq> [])"

definition extractCommand :: "jsstring \<Rightarrow> regexp \<Rightarrow> js_value \<times> jsstring" where
  "extractCommand response pattern =
     (case pattern response of
        Some m \<Rightarrow>
          ((case group1 m of Some g \<Rightarrow> Str g | None \<Rightarrow> Undefined),
           trim (replace_str response (whole m) []))
      | None \<Rightarrow> (Null, response))"

section \<open>State of the bot and its environment\<close>

text \<open>
  The module state: the two in-memory maps and the two tables of the SQLite
  database (a log row without its fresh \<open>id\<close> and its \<open>time\<close> default), and the
  calls made so far to the Telegram API and to the HTTP client, in order.
  Database statements are taken to succeed. The randomised pauses of
  \<open>handleMessage\<close> change no value and are left out.
\<close>

record turn =
  role :: jsstring
  content :: jsstring

record log_row =
  log_event :: jsstring
  log_type :: "jsstring option"
  log_text :: "jsstring option"
  log_user_id :: "int option"

record gif_row =
  base64 :: jsstring
  hash :: jsstring
  url :: jsstring

record ai_request =
  model :: jsstring
  messages :: "turn list"

datatype call =
    SendChatAction int jsstring
  | Post jsstring ai_request
  | SetMessageReaction int int jsstring
  | ReplyWithAnimation jsstring jsstring
  | Reply jsstring "int option"
  | GetFile
  | Download jsstring

record bot_state =
  messageContexts :: "int \<rightharpoonup> turn list"
  lastBotMessages :: "int \<rightharpoonup> int list"
  logs :: "log_row list"
  gifs :: "gif_row list"
  calls :: "call list"

definition initial_state :: bot_state where
  "initial_state =
     \<lparr>messageContexts = Map.empty, lastBotMessages = Map.empty, logs = [], gifs = [],
      calls = []\<rparr>"

text \<open>The part of a grammY context that the handlers read.\<close>

record from_user =
  from_id :: int
  first_name :: jsstring
  last_name :: "jsstring option"

record extended_context =
  chat_id :: "int option"
  from_user :: "from_user option"
  message_id :: "int option"

record config =
  AI_URL :: jsstring
  AI_MODEL :: jsstring
  SYSTEM_PROMPT :: "jsstring option"
  TELEGRAM_TOKEN :: jsstring

text \<open>
  An awaited call returns or throws; a thrown error is kept as its message. A
  \<open>world\<close> fixes the outcome of every external call of one unit of work: the
  backend answers with the value found at \<open>data.choices[0].message.content\<close>
  (\<open>None\<close> when the chain of optional accesses ends in \<open>undefined\<close>; a content that
  is neither absent nor a string is outside the model), \<open>download\<close> is the base64
  text of the fetched bytes, \<open>random_row\<close> the draw of \<open>ORDER BY RANDOM()\<close>.
\<close>

datatype 'a result = Throws jsstring | Returns 'a

record tg_file =
  file_path :: "jsstring option"
  file_unique_id :: jsstring

record world =
  typing1 :: "unit result"
  backend :: "jsstring option result"
  setReaction :: "unit result"
  random_row :: nat
  sendAnimation :: "unit result"
  typing2 :: "unit result"
  reply :: "int result"
  getFile :: "tg_file result"
  download :: "jsstring result"

definition do_call :: "call \<Rightarrow> bot_state \<Rightarrow> bot_state" where
  "do_call c st = st\<lparr>calls := calls st @ [c]\<rparr>"

section \<open>Logging\<close>

definition logEvent ::
  "jsstring \<Rightarrow> jsstring option \<Rightarrow> jsstring option \<Rightarrow> int option \<Rightarrow> bot_state \<Rightarrow> bot_state" where
  "logEvent event type text userId st =
     st\<lparr>logs := logs st @
       [\<lparr>log_event = event, log_type = type, log_text = text, log_user_id = userId\<rparr>]\<rparr>"

definition handleError :: "jsstring \<Rightarrow> jsstring \<Rightarrow> int option \<Rightarrow> bot_state \<Rightarrow> bot_state" where
  "handleError message errorMsg userId st =
     logEvent (js ''ERROR'') (Some (js ''SYSTEM'')) (Some (message @ js '': '' @ errorMsg)) userId st"

section \<open>Small JavaScript helpers\<close>

text \<open>\<open>xs.slice(-n)\<close> for a positive \<open>n\<close>: the last \<open>n\<close> elements, all of them when there are fewer.\<close>

definition slice_last :: "nat \<Rightarrow> 'a list \<Rightarrow> 'a list" where
  "slice_last n xs = drop (length xs - n) xs"

text \<open>Decimal rendering of an integer (identifiers stay below \<open>10^21\<close>, where JavaScript switches to exponents).\<close>

fun digits :: "nat \<Rightarrow> jsstring" where
  "digits n = (if n < 10 then [of_nat (48 + n)] else digits (n div 10) @ [of_nat (48 + n mod 10)])"

declare digits.simps [simp del]

definition num_str :: "int \<Rightarrow> jsstring" where
  "num_str i = (if i < 0 then js ''-'' @ digits (nat (- i)) else digits (nat i))"

text \<open>An optional number inside a template literal.\<close>

definition opt_num_str :: "int option \<Rightarrow> jsstring" where
  "opt_num_str x = (case x of None \<Rightarrow> js ''undefined'' | Some i \<Rightarrow> num_str i)"

fun join_space :: "jsstring list \<Rightarrow> jsstring" where
  "join_space [] = []"
| "join_space [x] = x"
| "join_space (x # y # ys) = x @ js '' '' @ join_space (y # ys)"

text \<open>
  \<open>finalResponse.replace(/[_*[\]()~`>#+\-=|{}.!]/g, '\\$&')\<close>: a backslash before
  every code unit of the class.
\<close>

definition reserved :: "jschar \<Rightarrow> bool" where
  "reserved c = (c \<in> set (js ''_*[]()~`>#+-=|{}.!''))"

definition escapeMarkdown :: "jsstring \<Rightarrow> jsstring" where
  "escapeMarkdown s = concat (map (\<lambda>c. if reserved c then [0x5C, c] else [c]) s)"

section \<open>Side effects\<close>

text \<open>
  \<open>handleReaction\<close>: nothing is attempted for a falsy reaction or message id.
  Inside the \<open>try\<close>, \<open>ctx.chat.id\<close> on a context without chat is a \<open>TypeError\<close>
  (with the message of JavaScriptCore, the engine of Bun), caught like a failure of
  the API call.
\<close>

definition handleReaction ::
  "world \<Rightarrow> extended_context \<Rightarrow> js_value \<Rightarrow> bot_state \<Rightarrow> bool \<times> bot_state" where
  "handleReaction w ctx reaction st =
     (case (reaction, message_id ctx) of
        (Str r, Some mid) \<Rightarrow>
          if r = [] \<or> mid = 0 then (False, st)
          else
            (case chat_id ctx of
               None \<Rightarrow>
                 (False, handleError (js ''Reaction failed'')
                    (js ''undefined is not an object (evaluating 'ctx.chat.id')'')
                    (map_option from_id (from_user ctx)) st)
             | Some chatId \<Rightarrow>
                 let st1 = do_call (SetMessageReaction chatId mid r) st in
                 (case setReaction w of
                    Returns _ \<Rightarrow>
                      (True, logEvent (js ''REACTION'') (Some (js ''SYSTEM'')) (Some r)
                         (map_option from_id (from_user ctx)) st1)
                  | Throws e \<Rightarrow>
                      (False, handleError (js ''Reaction failed'') e
                         (map_option from_id (from_user ctx)) st1)))
      | _ \<Rightarrow> (False, st))"

text \<open>
  \<open>handleGifCommand\<close>: one row of \<open>gifs\<close> drawn at random, none when the table is
  empty. The animation is sent as the decoded bytes of \<open>row.base64\<close>, recorded
  here by that text, under the file name \<open>gif_<hash>.mp4\<close>.
\<close>

definition handleGifCommand :: "world \<Rightarrow> extended_context \<Rightarrow> bot_state \<Rightarrow> bool \<times> bot_state" where
  "handleGifCommand w ctx st =
     (if gifs st = [] then (False, st)
      else
        let row = gifs st ! (random_row w mod length (gifs st));
            st1 = do_call (ReplyWithAnimation (base64 row) (js ''gif_'' @ hash row @ js ''.mp4'')) st
        in (case sendAnimation w of
              Returns _ \<Rightarrow>
                (True, logEvent (js ''GIF_SENT'') (Some (js ''SYSTEM'')) (Some (hash row))
                   (map_option from_id (from_user ctx)) st1)
            | Throws e \<Rightarrow>
                (False, handleError (js ''GIF send failed'') e
                   (map_option from_id (from_user ctx)) st1)))"

section \<open>The backend call\<close>

text \<open>The \<open>messages\<close> field of the request body built by \<open>getAIResponse\<close>.\<close>

definition ai_messages :: "config \<Rightarrow> jsstring \<Rightarrow> turn list \<Rightarrow> turn list" where
  "ai_messages cfg prompt context =
     [\<lparr>role = js ''system'',
       content = (case SYSTEM_PROMPT cfg of None \<Rightarrow> [] | Some p \<Rightarrow> p)\<rparr>]
     @ slice_last 8 context
     @ [\<lparr>role = js ''user'', content = prompt\<rparr>]"

text \<open>
  The sampling constants of the body (\<open>max_tokens\<close>, \<open>temperature\<close>, \<open>top_p\<close>,
  \<open>stream\<close>) and the request headers are fixed and left out of \<open>ai_request\<close>.
  \<open>SYSTEM_PROMPT || ''\<close> turns an unset variable (and an empty one) into \<open>''\<close>.
\<close>

definition getAIResponse ::
  "config \<Rightarrow> world \<Rightarrow> jsstring \<Rightarrow> turn list \<Rightarrow> int \<Rightarrow> bot_state \<Rightarrow> jsstring option \<times> bot_state" where
  "getAIResponse cfg w prompt context user_id st =
     (let st1 = do_call (Post (AI_URL cfg)
                  \<lparr>model = AI_MODEL cfg, messages = ai_messages cfg prompt context\<rparr>) st
      in case backend w of
           Returns (Some result) \<Rightarrow>
             if result \<noteq> [] then
               (Some result,
                logEvent (js ''RESPONSE'') (Some (js ''text'')) (Some result) (Some user_id) st1)
             else (None, st1)
         | Returns None \<Rightarrow> (None, st1)
         | Throws e \<Rightarrow> (None, handleError (js ''AI request failed'') e None st1))"

section \<open>Media ingestion\<close>

text \<open>\<open>INSERT OR IGNORE\<close> under \<open>PRIMARY KEY(hash, url)\<close>.\<close>

definition insert_or_ignore :: "gif_row \<Rightarrow> gif_row list \<Rightarrow> gif_row list" where
  "insert_or_ignore r tbl =
     (if \<exists>x \<in> set tbl. hash x = hash r \<and> url x = url r then tbl else tbl @ [r])"

definition handleGifUpload :: "config \<Rightarrow> world \<Rightarrow> extended_context \<Rightarrow> bot_state \<Rightarrow> bot_state" where
  "handleGifUpload cfg w ctx st =
     (let st1 = do_call GetFile st in
      case getFile w of
        Throws e \<Rightarrow>
          handleError (js ''GIF upload failed'') e (map_option from_id (from_user ctx)) st1
      | Returns file \<Rightarrow>
          (case file_path file of
             None \<Rightarrow> st1
           | Some path \<Rightarrow>
               if path = [] then st1
               else if \<exists>x \<in> set (gifs st1). hash x = file_unique_id file then st1
               else
                 let fileUrl = js ''https://api.telegram.org/file/bot'' @ TELEGRAM_TOKEN cfg
                               @ js ''/'' @ path;
                     st2 = do_call (Download fileUrl) st1
                 in (case download w of
                       Throws e \<Rightarrow>
                         handleError (js ''GIF upload failed'') e
                           (map_option from_id (from_user ctx)) st2
                     | Returns data \<Rightarrow>
                         let row = \<lparr>base64 = data, hash = file_unique_id file,
                                    url = js ''t.me/'' @ opt_num_str (chat_id ctx) @ js ''/''
                                          @ opt_num_str (message_id ctx)\<rparr>;
                             st3 = st2\<lparr>gifs := insert_or_ignore row (gifs st2)\<rparr>
                         in logEvent (js ''GIF_SAVED'') (Some (js ''SYSTEM''))
                              (Some (file_unique_id file))
                              (map_option from_id (from_user ctx)) st3)))"

section \<open>The message handler\<close>

text \<open>
  \<open>handleMessage\<close> is given in blocks, in the order of the source. Line 157: the
  context of the exchange, the stored one for a reply to the bot and the empty one
  otherwise. Line 158: the sender's name.
\<close>

definition loadContext :: "bool \<Rightarrow> int \<Rightarrow> bot_state \<Rightarrow> turn list" where
  "loadContext isReplyToBot chatId st =
     (if isReplyToBot
      then (case messageContexts st chatId of Some c \<Rightarrow> c | None \<Rightarrow> [])
      else [])"

definition userName :: "from_user \<Rightarrow> jsstring" where
  "userName sender =
     join_space (filter (\<lambda>s. s \<noteq> [])
       (first_name sender # (case last_name sender of Some l \<Rightarrow> [l] | None \<Rightarrow> [])))"

text \<open>The \<open>catch\<close> clause of \<open>handleMessage\<close> (lines 196 to 198).\<close>

definition failed :: "int \<Rightarrow> jsstring \<Rightarrow> bot_state \<Rightarrow> bot_state" where
  "failed userId e st = handleError (js ''Message processing failed'') e (Some userId) st"

text \<open>
  The body of \<open>if (finalResponse)\<close> (lines 174 to 194): the second typing action,
  the update of \<open>messageContexts\<close>, the reply, the update of \<open>lastBotMessages\<close>.
  A call that throws ends the block in the \<open>catch\<close> clause, with the updates made
  before it kept.
\<close>

definition deliver ::
  "world \<Rightarrow> extended_context \<Rightarrow> int \<Rightarrow> int \<Rightarrow> turn list \<Rightarrow> jsstring \<Rightarrow> bool \<Rightarrow> js_value
     \<Rightarrow> jsstring \<Rightarrow> bot_state \<Rightarrow> bot_state" where
  "deliver w ctx chatId userId context text isReplyToBot gifCommand finalResponse st4 =
     (let st5 = do_call (SendChatAction chatId (js ''typing'')) st4 in
      case typing2 w of
        Throws e \<Rightarrow> failed userId e st5
      | Returns _ \<Rightarrow>
          let st6 = (if isReplyToBot then
                       st5\<lparr>messageContexts := (messageContexts st5)(chatId \<mapsto>
                         slice_last 18 context @
                         [\<lparr>role = js ''user'', content = text\<rparr>,
                          \<lparr>role = js ''assistant'', content = finalResponse\<rparr>])\<rparr>
                     else st5);
              escaped = escapeMarkdown finalResponse;
              st7 = do_call (Reply escaped (message_id ctx)) st6
          in (case reply w of
                Throws e \<Rightarrow> failed userId e st7
              | Returns sentMessage \<Rightarrow>
                  if isReplyToBot \<and> \<not> truthy gifCommand then
                    st7\<lparr>lastBotMessages := (lastBotMessages st7)(chatId \<mapsto>
                      slice_last 9 (case lastBotMessages st7 chatId of
                                      Some c \<Rightarrow> c | None \<Rightarrow> [])
                      @ [sentMessage])\<rparr>
                  else st7))"

text \<open>
  Lines 167 to 195, for a usable backend answer: the two extractions, the two
  dispatches, and the delivery of a non-empty final text.
\<close>

definition respond ::
  "world \<Rightarrow> extended_context \<Rightarrow> int \<Rightarrow> int \<Rightarrow> turn list \<Rightarrow> jsstring \<Rightarrow> bool \<Rightarrow> jsstring
     \<Rightarrow> bot_state \<Rightarrow> bot_state" where
  "respond w ctx chatId userId context text isReplyToBot aiResponse st2 =
     (let (reaction, cleanResponse) = extractCommand aiResponse reactionPattern;
          (gifCommand, finalResponse) = extractCommand cleanResponse sendGifPattern;
          st3 = snd (handleReaction w ctx reaction st2);
          st4 = (if truthy gifCommand then snd (handleGifCommand w ctx st3) else st3)
      in if finalResponse \<noteq> []
         then deliver w ctx chatId userId context text isReplyToBot gifCommand finalResponse st4
         else st4)"

text \<open>
  The handler: nothing happens for a missing or zero chat or sender id; then the
  first typing action, the backend call, and \<open>respond\<close> on a usable answer.
\<close>

definition handleMessage ::
  "config \<Rightarrow> world \<Rightarrow> extended_context \<Rightarrow> jsstring \<Rightarrow> bool \<Rightarrow> bot_state \<Rightarrow> bot_state" where
  "handleMessage cfg w ctx text isReplyToBot st =
     (case (chat_id ctx, from_user ctx) of
        (Some chatId, Some sender) \<Rightarrow>
          if chatId = 0 \<or> from_id sender = 0 then st
          else
            let userId = from_id sender;
                context = loadContext isReplyToBot chatId st;
                st1 = do_call (SendChatAction chatId (js ''typing'')) st
            in (case typing1 w of
                  Throws e \<Rightarrow> failed userId e st1
                | Returns _ \<Rightarrow>
                    (case getAIResponse cfg w (userName sender @ js '': '' @ text) context userId st1 of
                       (None, st2) \<Rightarrow> st2
                     | (Some aiResponse, st2) \<Rightarrow>
                         respond w ctx chatId userId context text isReplyToBot aiResponse st2))
      | _ \<Rightarrow> st)"

section \<open>Units of work\<close>

text \<open>
  The units of work that the message listener hands to \<open>queueMessage\<close> and that
  touch the state above, each with the outcomes of its external calls.
\<close>

datatype work =
    Message world extended_context jsstring bool
  | GifUpload world extended_context

fun perform :: "config \<Rightarrow> bot_state \<Rightarrow> work \<Rightarrow> bot_state" where
  "perform cfg st (Message w ctx text isReplyToBot) = handleMessage cfg w ctx text isReplyToBot st"
| "perform cfg st (GifUpload w ctx) = handleGifUpload cfg w ctx st"

definition run :: "config \<Rightarrow> work list \<Rightarrow> bot_state \<Rightarrow> bot_state" where
  "run cfg ws st = foldl (perform cfg) st ws"

section \<open>Relations between states\<close>

text \<open>Two states that differ at most in \<open>logs\<close>.\<close>

definition same_effects :: "bot_state \<Rightarrow> bot_state \<Rightarrow> bool" where
  "same_effects s t =
     (messageContexts s = messageContexts t \<and> lastBotMessages s = lastBotMessages t
      \<and> gifs s = gifs t \<and> calls s = calls t)"

text \<open>The calls made from one state to a later one include no animation.\<close>

definition no_animation :: "bot_state \<Rightarrow> bot_state \<Rightarrow> bool" where
  "no_animation st st' =
     (\<exists>new. calls st' = calls st @ new \<and> (\<forall>a b. ReplyWithAnimation a b \<notin> set new))"

section \<open>Sample inputs\<close>

definition example_config :: config where
  "example_config =
     \<lparr>AI_URL = js ''https://ai.example/v1/chat'', AI_MODEL = js ''m'',
      SYSTEM_PROMPT = Some (js ''be brief''), TELEGRAM_TOKEN = js ''tok''\<rparr>"

definition example_ctx :: extended_context where
  "example_ctx =
     \<lparr>chat_id = Some 7,
      from_user = Some \<lparr>from_id = 3, first_name = js ''Al'', last_name = None\<rparr>,
      message_id = Some 11\<rparr>"

text \<open>A world in which every external call succeeds and the backend answers \<open>r\<close>.\<close>

definition world_ok :: "jsstring \<Rightarrow> world" where
  "world_ok r =
     \<lparr>typing1 = Returns (), backend = Returns (Some r), setReaction = Returns (),
      random_row = 0, sendAnimation = Returns (), typing2 = Returns (), reply = Returns 100,
      getFile = Returns \<lparr>file_path = Some (js ''animations/file_0.mp4''), file_unique_id = js ''AgAD''\<rparr>,
      download = Returns (js ''AAAA'')\<rparr>"

definition example_turns :: "turn list" where
  "example_turns =
     [\<lparr>role = js ''user'', content = js ''hi''\<rparr>, \<lparr>role = js ''assistant'', content = js ''hello''\<rparr>]"

section \<open>The window of turns sent to the backend\<close>

lemma slice_last_suffix: "\<exists>old. xs = old @ slice_last n xs"
  unfolding slice_last_def by (metis append_take_drop_id)

lemma length_slice_last: "length (slice_last n xs) = min n (length xs)"
  unfolding slice_last_def by simp

lemma slice_last_all: "length xs \<le> n \<Longrightarrow> slice_last n xs = xs"
  unfolding slice_last_def by simp

text \<open>
  C4. \<open>getAIResponse\<close> makes one backend call, and its message list is the system
  preamble, then the last 8 turns of the supplied context (a suffix of it, of length
  \<open>min 8 (length turns)\<close>, the whole context when it has 8 turns or fewer), then the
  new user turn. The bound 8 is a literal of the function; the retention bound of
  the store does not occur in it.
\<close>

theorem backend_messages_window:
  "calls (snd (getAIResponse cfg w prompt turns uid st))
     = calls st @ [Post (AI_URL cfg) \<lparr>model = AI_MODEL cfg, messages = ai_messages cfg prompt turns\<rparr>]
   \<and> ai_messages cfg prompt turns
     = \<lparr>role = js ''system'', content = (case SYSTEM_PROMPT cfg of None \<Rightarrow> [] | Some p \<Rightarrow> p)\<rparr>
       # slice_last 8 turns @ [\<lparr>role = js ''user'', content = prompt\<rparr>]
   \<and> (\<exists>older. turns = older @ slice_last 8 turns)
   \<and> length (slice_last 8 turns) = min 8 (length turns)
   \<and> (length turns \<le> 8 \<longrightarrow> slice_last 8 turns = turns)"
proof -
  have "calls (snd (getAIResponse cfg w prompt turns uid st))
     = calls st @ [Post (AI_URL cfg) \<lparr>model = AI_MODEL cfg, messages = ai_messages cfg prompt turns\<rparr>]"
    by (simp add: getAIResponse_def do_call_def logEvent_def handleError_def Let_def
             split: result.split option.split)
  moreover have "ai_messages cfg prompt turns
     = \<lparr>role = js ''system'', content = (case SYSTEM_PROMPT cfg of None \<Rightarrow> [] | Some p \<Rightarrow> p)\<rparr>
       # slice_last 8 turns @ [\<lparr>role = js ''user'', content = prompt\<rparr>]"
    by (simp add: ai_messages_def)
  ultimately show ?thesis
    using slice_last_suffix [of turns 8] length_slice_last [of 8 turns] slice_last_all [of turns 8]
    by blast
qed

theorem backend_messages_window_witness:
  "length example_turns \<le> 8
   \<and> ai_messages example_config (js ''Al: hey'') example_turns
     = [\<lparr>role = js ''system'', content = js ''be brief''\<rparr>,
        \<lparr>role = js ''user'', content = js ''hi''\<rparr>,
        \<lparr>role = js ''assistant'', content = js ''hello''\<rparr>,
        \<lparr>role = js ''user'', content = js ''Al: hey''\<rparr>]"
proof -
  have len: "length example_turns \<le> 8"
    by (simp add: example_turns_def)
  have "slice_last 8 example_turns = example_turns"
    using backend_messages_window [of example_config "world_ok []" "js ''Al: hey''" example_turns 3 initial_state] len
    by blast
  then show ?thesis
    using len by (simp add: ai_messages_def example_config_def example_turns_def)
qed

section \<open>Extraction when the pattern does not match\<close>

text \<open>
  C7. \<open>extractCommand\<close> is a function of its two arguments. Whenever the pattern
  does not match the text, it returns \<open>null\<close> as the extracted value and the text
  itself, unchanged; in particular on \<open>hello\<close> with the reaction pattern.
\<close>

theorem extractCommand_no_match:
  "(pattern response = None \<longrightarrow> extractCommand response pattern = (Null, response))
   \<and> extractCommand (js ''hello'') reactionPattern = (Null, js ''hello'')"
  by (simp add: extractCommand_def reactionPattern_def reaction_at_def js_def)

theorem extractCommand_no_match_witness:
  "sendGifPattern (js '' hello '') = None
   \<and> extractCommand (js '' hello '') sendGifPattern = (Null, js '' hello '')"
  using extractCommand_no_match [of sendGifPattern "js '' hello ''"]
  by (simp add: sendGifPattern_def sendGif_at_def js_def)

section \<open>Trimming and searching\<close>

lemma trim_head: "trim s = c # cs \<Longrightarrow> \<not> isWhiteSpace c"
proof -
  assume a: "trim s = c # cs"
  let ?u = "dropWhile isWhiteSpace s"
  let ?v = "dropWhile isWhiteSpace (rev ?u)"
  from a have v: "rev ?v = c # cs" by (simp add: trim_def)
  then have "?v \<noteq> []" by auto
  then have une: "?u \<noteq> []" by (metis dropWhile.simps(1) rev.simps(1))
  have "\<exists>k. ?v = drop k (rev ?u)"
    by (metis dropWhile_eq_drop)
  then obtain k where k: "?v = drop k (rev ?u)" by blast
  have "rev ?v = take (length ?u - k) ?u"
    by (simp add: k rev_drop)
  with v have "take (length ?u - k) ?u = c # cs" by simp
  then have "hd ?u = c" using une by (cases ?u) (auto simp: take_Cons' split: if_splits)
  moreover have "\<not> isWhiteSpace (hd ?u)" using une by (rule hd_dropWhile)
  ultimately show ?thesis by simp
qed

lemma trim_last: "trim s = cs @ [c] \<Longrightarrow> \<not> isWhiteSpace c"
proof -
  assume a: "trim s = cs @ [c]"
  let ?v = "dropWhile isWhiteSpace (rev (dropWhile isWhiteSpace s))"
  from a have "rev ?v = cs @ [c]" by (simp add: trim_def)
  then have "?v = c # rev cs" by (metis rev_rev_ident rev.simps(2) rev_append rev_singleton_conv append_Nil) 
  then have "?v \<noteq> []" and "hd ?v = c" by auto
  then show ?thesis using hd_dropWhile [of isWhiteSpace "rev (dropWhile isWhiteSpace s)"] by blast
qed

lemma exec_from_span:
  assumes within: "\<And>t n g. at t = Some (n, g) \<Longrightarrow> n \<le> length t"
      and pref: "\<And>t n g u. at t = Some (n, g) \<Longrightarrow> take n u = take n t \<Longrightarrow> at u \<noteq> None"
  shows "exec_from at i s = Some m \<Longrightarrow>
         \<exists>pre post. s = pre @ whole m @ post \<and> index m = i + length pre
            \<and> replace_str s (whole m) [] = pre @ post
            \<and> at (whole m @ post) = Some (length (whole m), group1 m)
            \<and> (\<forall>j < length pre. at (drop j s) = None)"
proof (induction s arbitrary: i)
  case Nil
  then obtain n g where ng: "at [] = Some (n, g)" and m: "m = \<lparr>index = i, whole = [], group1 = g\<rparr>"
    by (auto split: option.splits)
  from within [OF ng] have "n = 0" by simp
  with ng m show ?case by simp
next
  case (Cons c cs)
  show ?case
  proof (cases "at (c # cs)")
    case (Some p)
    obtain n g where p: "p = (n, g)" by (cases p)
    with Some Cons.prems have m: "m = \<lparr>index = i, whole = take n (c # cs), group1 = g\<rparr>" by simp
    from within Some p have n: "n \<le> length (c # cs)" by blast
    then have len: "length (whole m) = n" using m by simp
    have "c # cs = [] @ whole m @ drop n (c # cs)" using m by simp
    moreover have "replace_str (c # cs) (whole m) [] = [] @ drop n (c # cs)"
      using len m by simp
    moreover have "at (whole m @ drop n (c # cs)) = Some (length (whole m), group1 m)"
      using Some p m len by simp
    ultimately show ?thesis using m by (intro exI [of _ "[]"] exI [of _ "drop n (c # cs)"]) simp
  next
    case None
    with Cons.prems have "exec_from at (Suc i) cs = Some m" by simp
    from Cons.IH [OF this] obtain pre post where
      cs: "cs = pre @ whole m @ post" and ix: "index m = Suc i + length pre"
      and rp: "replace_str cs (whole m) [] = pre @ post"
      and am: "at (whole m @ post) = Some (length (whole m), group1 m)"
      and left: "\<forall>j < length pre. at (drop j cs) = None" by blast
    have ne: "take (length (whole m)) (c # cs) \<noteq> whole m"
    proof
      assume "take (length (whole m)) (c # cs) = whole m"
      then have "take (length (whole m)) (c # cs) = take (length (whole m)) (whole m @ post)" by simp
      from pref [OF am this] None show False by simp
    qed
    have "c # cs = (c # pre) @ whole m @ post" using cs by simp
    moreover have "index m = i + length (c # pre)" using ix by simp
    moreover have "replace_str (c # cs) (whole m) [] = (c # pre) @ post" using ne rp by simp
    moreover have "\<forall>j < length (c # pre). at (drop j (c # cs)) = None"
    proof (intro allI impI)
      fix j assume "j < length (c # pre)"
      then show "at (drop j (c # cs)) = None" using None left by (cases j) auto
    qed
    ultimately show ?thesis using am by blast
  qed
qed

lemma exec_from_complete:
  "j \<le> length s \<Longrightarrow> at (drop j s) \<noteq> None \<Longrightarrow> exec_from at i s \<noteq> None"
proof (induction s arbitrary: i j)
  case Nil
  then show ?case by (auto split: option.splits)
next
  case (Cons c cs)
  show ?case
  proof (cases j)
    case 0
    with Cons.prems show ?thesis by (auto split: option.splits)
  next
    case (Suc k)
    with Cons.prems have "k \<le> length cs" "at (drop k cs) \<noteq> None" by auto
    from Cons.IH [OF this] show ?thesis by (auto split: option.splits)
  qed
qed

section \<open>The two patterns of the source\<close>

lemma take_eq_prefix: "take (length p) t = p \<Longrightarrow> \<exists>rest. t = p @ rest"
  by (metis append_take_drop_id)

lemma reaction_at_intro:
  assumes "r \<noteq> []" and "0x29 \<notin> set r"
  shows "reaction_at (js ''%Reaction('' @ r @ js '')%'' @ rest) = Some (12 + length r, Some r)"
proof -
  have tw: "takeWhile (\<lambda>c. c \<noteq> 0x29) (r @ js '')%'' @ rest) = r"
  proof -
    have "takeWhile (\<lambda>c. c \<noteq> 0x29) (r @ js '')%'' @ rest)
            = r @ takeWhile (\<lambda>c. c \<noteq> 0x29) (js '')%'' @ rest)"
      using assms(2) by (intro takeWhile_append2) auto
    then show ?thesis by (simp add: js_def)
  qed
  have l: "length (js ''%Reaction('') = 10" by (simp add: js_def)
  have t: "take 10 (js ''%Reaction('' @ r @ js '')%'' @ rest) = js ''%Reaction(''"
    using l by simp
  have d: "drop 10 (js ''%Reaction('' @ r @ js '')%'' @ rest) = r @ js '')%'' @ rest"
    using l by simp
  have d2: "drop (10 + length r) (js ''%Reaction('' @ r @ js '')%'' @ rest) = js '')%'' @ rest"
    using l by simp
  have t2: "take 2 (js '')%'' @ rest) = js '')%''" by (simp add: js_def)
  show ?thesis
    unfolding reaction_at_def t d tw d2 t2 Let_def using assms(1) by simp
qed

lemma reaction_at_Some:
  assumes "reaction_at t = Some (n, g)"
  shows "\<exists>r rest. g = Some r \<and> r \<noteq> [] \<and> 0x29 \<notin> set r
           \<and> t = js ''%Reaction('' @ r @ js '')%'' @ rest \<and> n = 12 + length r"
proof -
  let ?r = "takeWhile (\<lambda>c. c \<noteq> 0x29) (drop 10 t)"
  from assms have a: "take 10 t = js ''%Reaction(''" and rne: "?r \<noteq> []"
    and c: "take 2 (drop (10 + length ?r) t) = js '')%''"
    and n: "n = 10 + length ?r + 2" and g: "g = Some ?r"
    by (auto simp: reaction_at_def Let_def split: if_splits)
  have l: "length (js ''%Reaction('') = 10" and l2: "length (js '')%'') = 2" by (simp_all add: js_def)
  have "t = take 10 t @ drop 10 t" by simp
  then have t1: "t = js ''%Reaction('' @ drop 10 t" using a by simp
  have "drop 10 t = ?r @ dropWhile (\<lambda>c. c \<noteq> 0x29) (drop 10 t)" by simp
  also have "dropWhile (\<lambda>c. c \<noteq> 0x29) (drop 10 t) = drop (length ?r) (drop 10 t)"
    by (metis dropWhile_eq_drop)
  also have "\<dots> = drop (10 + length ?r) t" by (simp add: add.commute)
  finally have t2: "drop 10 t = ?r @ drop (10 + length ?r) t" .
  from c l2 obtain rest where t3: "drop (10 + length ?r) t = js '')%'' @ rest"
    by (metis take_eq_prefix)
  have "0x29 \<notin> set ?r" by (metis (mono_tags, lifting) set_takeWhileD)
  moreover have "t = js ''%Reaction('' @ ?r @ js '')%'' @ rest" using t1 t2 t3 by metis
  ultimately show ?thesis using g rne n by auto
qed

lemma reaction_at_within: "reaction_at t = Some (n, g) \<Longrightarrow> n \<le> length t"
  by (drule reaction_at_Some) (auto simp: js_def)

lemma reaction_at_prefix:
  assumes "reaction_at t = Some (n, g)" and "take n u = take n t"
  shows "reaction_at u \<noteq> None"
proof -
  from reaction_at_Some [OF assms(1)] obtain r rest where r: "r \<noteq> []" "0x29 \<notin> set r"
    and t: "t = js ''%Reaction('' @ r @ js '')%'' @ rest" and n: "n = 12 + length r" by blast
  have len: "length (js ''%Reaction('' @ r @ js '')%'') = n" using n by (simp add: js_def)
  have "take n t = js ''%Reaction('' @ r @ js '')%''" using t len by simp
  with assms(2) have "take (length (js ''%Reaction('' @ r @ js '')%'')) u = js ''%Reaction('' @ r @ js '')%''"
    using len by simp
  then obtain rest' where "u = (js ''%Reaction('' @ r @ js '')%'') @ rest'"
    by (blast dest: take_eq_prefix)
  then show ?thesis using reaction_at_intro [OF r, of rest'] by simp
qed

lemma sendGif_at_Some:
  "sendGif_at t = Some (n, g) \<longleftrightarrow> n = 9 \<and> g = None \<and> (\<exists>rest. t = js ''%sendGif%'' @ rest)"
proof -
  have l: "length (js ''%sendGif%'') = 9" by (simp add: js_def)
  have "take 9 t = js ''%sendGif%'' \<longleftrightarrow> (\<exists>rest. t = js ''%sendGif%'' @ rest)"
    using l by (metis append_eq_conv_conj)
  then show ?thesis by (auto simp: sendGif_at_def)
qed

lemma sendGif_at_within: "sendGif_at t = Some (n, g) \<Longrightarrow> n \<le> length t"
  by (auto simp: sendGif_at_Some js_def)

lemma sendGif_at_prefix:
  assumes "sendGif_at t = Some (n, g)" and "take n u = take n t"
  shows "sendGif_at u \<noteq> None"
  using assms by (auto simp: sendGif_at_def split: if_splits)

section \<open>Extraction when the pattern matches\<close>

lemma extract_reaction_match:
  assumes "reactionPattern s = Some m"
  shows "\<exists>pre r post. s = pre @ js ''%Reaction('' @ r @ js '')%'' @ post
           \<and> r \<noteq> [] \<and> 0x29 \<notin> set r
           \<and> index m = length pre \<and> whole m = js ''%Reaction('' @ r @ js '')%''
           \<and> group1 m = Some r
           \<and> (\<forall>j < length pre. reaction_at (drop j s) = None)
           \<and> extractCommand s reactionPattern = (Str r, trim (pre @ post))"
proof -
  from assms have "exec_from reaction_at 0 s = Some m" by (simp add: reactionPattern_def)
  then have "\<exists>pre post. s = pre @ whole m @ post \<and> index m = 0 + length pre
            \<and> replace_str s (whole m) [] = pre @ post
            \<and> reaction_at (whole m @ post) = Some (length (whole m), group1 m)
            \<and> (\<forall>j < length pre. reaction_at (drop j s) = None)"
  proof (rule exec_from_span [rotated 2])
    show "\<And>t n g. reaction_at t = Some (n, g) \<Longrightarrow> n \<le> length t"
      by (rule reaction_at_within)
    show "\<And>t n g u. reaction_at t = Some (n, g) \<Longrightarrow> take n u = take n t \<Longrightarrow> reaction_at u \<noteq> None"
      by (rule reaction_at_prefix)
  qed
  then obtain pre post where s: "s = pre @ whole m @ post" and ix: "index m = length pre"
    and rp: "replace_str s (whole m) [] = pre @ post"
    and am: "reaction_at (whole m @ post) = Some (length (whole m), group1 m)"
    and left: "\<forall>j < length pre. reaction_at (drop j s) = None" by auto
  from reaction_at_Some [OF am] obtain r rest where g: "group1 m = Some r" and r: "r \<noteq> []" "0x29 \<notin> set r"
    and w: "whole m @ post = js ''%Reaction('' @ r @ js '')%'' @ rest"
    and n: "length (whole m) = 12 + length r" by blast
  have "length (js ''%Reaction('' @ r @ js '')%'') = length (whole m)" using n by (simp add: js_def)
  moreover from w have "whole m @ post = (js ''%Reaction('' @ r @ js '')%'') @ rest" by simp
  ultimately have wm: "whole m = js ''%Reaction('' @ r @ js '')%''"
    by (metis append_eq_append_conv)
  have "extractCommand s reactionPattern = (Str r, trim (pre @ post))"
    using assms g rp by (simp add: extractCommand_def)
  moreover have "s = pre @ js ''%Reaction('' @ r @ js '')%'' @ post" using s wm by simp
  ultimately show ?thesis using r ix wm g left by blast
qed

lemma extract_sendGif_match:
  assumes "sendGifPattern s = Some m"
  shows "\<exists>pre post. s = pre @ js ''%sendGif%'' @ post
           \<and> index m = length pre \<and> whole m = js ''%sendGif%'' \<and> group1 m = None
           \<and> (\<forall>j < length pre. sendGif_at (drop j s) = None)
           \<and> extractCommand s sendGifPattern = (Undefined, trim (pre @ post))"
proof -
  from assms have "exec_from sendGif_at 0 s = Some m" by (simp add: sendGifPattern_def)
  then have "\<exists>pre post. s = pre @ whole m @ post \<and> index m = 0 + length pre
            \<and> replace_str s (whole m) [] = pre @ post
            \<and> sendGif_at (whole m @ post) = Some (length (whole m), group1 m)
            \<and> (\<forall>j < length pre. sendGif_at (drop j s) = None)"
  proof (rule exec_from_span [rotated 2])
    show "\<And>t n g. sendGif_at t = Some (n, g) \<Longrightarrow> n \<le> length t"
      by (rule sendGif_at_within)
    show "\<And>t n g u. sendGif_at t = Some (n, g) \<Longrightarrow> take n u = take n t \<Longrightarrow> sendGif_at u \<noteq> None"
      by (rule sendGif_at_prefix)
  qed
  then obtain pre post where s: "s = pre @ whole m @ post" and ix: "index m = length pre"
    and rp: "replace_str s (whole m) [] = pre @ post"
    and am: "sendGif_at (whole m @ post) = Some (length (whole m), group1 m)"
    and left: "\<forall>j < length pre. sendGif_at (drop j s) = None" by auto
  from am obtain rest where g: "group1 m = None" and n: "length (whole m) = 9"
    and w: "whole m @ post = js ''%sendGif%'' @ rest"
    by (auto simp: sendGif_at_Some)
  have "length (js ''%sendGif%'') = length (whole m)" using n by (simp add: js_def)
  with w have wm: "whole m = js ''%sendGif%''"
    by (metis append_eq_append_conv)
  have "extractCommand s sendGifPattern = (Undefined, trim (pre @ post))"
    using assms g rp by (simp add: extractCommand_def)
  moreover have "s = pre @ js ''%sendGif%'' @ post" using s wm by simp
  ultimately show ?thesis using ix wm g left by blast
qed

lemma trim_decomp:
  "\<exists>l rr. u = l @ trim u @ rr \<and> (\<forall>c \<in> set l. isWhiteSpace c) \<and> (\<forall>c \<in> set rr. isWhiteSpace c)"
proof -
  let ?l = "takeWhile isWhiteSpace u"
  let ?v = "dropWhile isWhiteSpace u"
  let ?r = "rev (takeWhile isWhiteSpace (rev ?v))"
  have "rev ?v = takeWhile isWhiteSpace (rev ?v) @ dropWhile isWhiteSpace (rev ?v)" by simp
  then have "?v = rev (dropWhile isWhiteSpace (rev ?v)) @ ?r"
    by (metis rev_append rev_rev_ident)
  then have "u = ?l @ trim u @ ?r"
    by (metis takeWhile_dropWhile_id trim_def)
  moreover have "\<forall>c \<in> set ?l. isWhiteSpace c" by (meson set_takeWhileD)
  moreover have "\<forall>c \<in> set ?r. isWhiteSpace c" by (metis set_rev set_takeWhileD)
  ultimately show ?thesis by blast
qed

lemma trimmed_remainder:
  assumes "extractCommand s pattern = (v, trim u)"
  shows "\<exists>l rr. u = l @ snd (extractCommand s pattern) @ rr
           \<and> (\<forall>c \<in> set l. isWhiteSpace c) \<and> (\<forall>c \<in> set rr. isWhiteSpace c)
           \<and> (\<forall>c cs. snd (extractCommand s pattern) = c # cs \<longrightarrow> \<not> isWhiteSpace c)
           \<and> (\<forall>cs c. snd (extractCommand s pattern) = cs @ [c] \<longrightarrow> \<not> isWhiteSpace c)"
proof -
  have t: "snd (extractCommand s pattern) = trim u" using assms by simp
  from trim_decomp [of u] obtain l rr where
    d: "u = l @ trim u @ rr" "\<forall>c \<in> set l. isWhiteSpace c" "\<forall>c \<in> set rr. isWhiteSpace c"
    by blast
  have h: "\<forall>c cs. trim u = c # cs \<longrightarrow> \<not> isWhiteSpace c" using trim_head by blast
  have e: "\<forall>cs c. trim u = cs @ [c] \<longrightarrow> \<not> isWhiteSpace c" using trim_last by blast
  show ?thesis
    unfolding t using d h e by (intro exI [of _ l] exI [of _ rr] conjI)
qed

text \<open>
  C6. When the pattern matches, the match is the leftmost one: the text is
  \<open>pre @ tag @ post\<close> with no match starting inside \<open>pre\<close>. \<open>extractCommand\<close>
  removes exactly that span and returns \<open>match[1]\<close>: the run between the
  parentheses for the reaction pattern, \<open>undefined\<close> for the media-send pattern,
  which has no group. The returned text is \<open>pre @ post\<close> without the white space
  at its two ends: what is cut off on either side is white space only, and what
  remains neither starts nor ends with a white-space code unit. On the text of the
  specification the result is the emoji and \<open>hi  there\<close>, also when that text
  stands between a tab, spaces and a line feed.
\<close>

theorem extractCommand_removes_match:
  "(reactionPattern s = Some m \<longrightarrow>
      (\<exists>pre r post l rr. s = pre @ js ''%Reaction('' @ r @ js '')%'' @ post
           \<and> r \<noteq> [] \<and> 0x29 \<notin> set r
           \<and> index m = length pre \<and> whole m = js ''%Reaction('' @ r @ js '')%''
           \<and> group1 m = Some r
           \<and> (\<forall>j < length pre. reaction_at (drop j s) = None)
           \<and> extractCommand s reactionPattern = (Str r, trim (pre @ post))
           \<and> pre @ post = l @ snd (extractCommand s reactionPattern) @ rr
           \<and> (\<forall>c \<in> set l. isWhiteSpace c) \<and> (\<forall>c \<in> set rr. isWhiteSpace c)
           \<and> (\<forall>c cs. snd (extractCommand s reactionPattern) = c # cs \<longrightarrow> \<not> isWhiteSpace c)
           \<and> (\<forall>cs c. snd (extractCommand s reactionPattern) = cs @ [c] \<longrightarrow> \<not> isWhiteSpace c)))
   \<and> (sendGifPattern s = Some m \<longrightarrow>
      (\<exists>pre post l rr. s = pre @ js ''%sendGif%'' @ post
           \<and> index m = length pre \<and> whole m = js ''%sendGif%'' \<and> group1 m = None
           \<and> (\<forall>j < length pre. sendGif_at (drop j s) = None)
           \<and> extractCommand s sendGifPattern = (Undefined, trim (pre @ post))
           \<and> pre @ post = l @ snd (extractCommand s sendGifPattern) @ rr
           \<and> (\<forall>c \<in> set l. isWhiteSpace c) \<and> (\<forall>c \<in> set rr. isWhiteSpace c)
           \<and> (\<forall>c cs. snd (extractCommand s sendGifPattern) = c # cs \<longrightarrow> \<not> isWhiteSpace c)
           \<and> (\<forall>cs c. snd (extractCommand s sendGifPattern) = cs @ [c] \<longrightarrow> \<not> isWhiteSpace c)))
   \<and> extractCommand (js ''hi %Reaction('' @ [0xD83D, 0xDE00] @ js '')% there'') reactionPattern
       = (Str [0xD83D, 0xDE00], js ''hi  there'')
   \<and> extractCommand ([0x9, 0x20] @ js ''hi %Reaction('' @ [0xD83D, 0xDE00] @ js '')% there'' @ [0x20, 0xA])
         reactionPattern
       = (Str [0xD83D, 0xDE00], js ''hi  there'')"
proof (intro conjI impI)
  assume "reactionPattern s = Some m"
  from extract_reaction_match [OF this] obtain pre r post where
    a: "s = pre @ js ''%Reaction('' @ r @ js '')%'' @ post" "r \<noteq> []" "0x29 \<notin> set r"
       "index m = length pre" "whole m = js ''%Reaction('' @ r @ js '')%''" "group1 m = Some r"
       "\<forall>j < length pre. reaction_at (drop j s) = None"
    and e: "extractCommand s reactionPattern = (Str r, trim (pre @ post))" by blast
  from trimmed_remainder [OF e] obtain l rr where
    t: "pre @ post = l @ snd (extractCommand s reactionPattern) @ rr"
       "\<forall>c \<in> set l. isWhiteSpace c" "\<forall>c \<in> set rr. isWhiteSpace c"
       "\<forall>c cs. snd (extractCommand s reactionPattern) = c # cs \<longrightarrow> \<not> isWhiteSpace c"
       "\<forall>cs c. snd (extractCommand s reactionPattern) = cs @ [c] \<longrightarrow> \<not> isWhiteSpace c"
    by blast
  show "\<exists>pre r post l rr. s = pre @ js ''%Reaction('' @ r @ js '')%'' @ post
           \<and> r \<noteq> [] \<and> 0x29 \<notin> set r
           \<and> index m = length pre \<and> whole m = js ''%Reaction('' @ r @ js '')%''
           \<and> group1 m = Some r
           \<and> (\<forall>j < length pre. reaction_at (drop j s) = None)
           \<and> extractCommand s reactionPattern = (Str r, trim (pre @ post))
           \<and> pre @ post = l @ snd (extractCommand s reactionPattern) @ rr
           \<and> (\<forall>c \<in> set l. isWhiteSpace c) \<and> (\<forall>c \<in> set rr. isWhiteSpace c)
           \<and> (\<forall>c cs. snd (extractCommand s reactionPattern) = c # cs \<longrightarrow> \<not> isWhiteSpace c)
           \<and> (\<forall>cs c. snd (extractCommand s reactionPattern) = cs @ [c] \<longrightarrow> \<not> isWhiteSpace c)"
    using a e t
    by (intro exI [of _ pre] exI [of _ r] exI [of _ post] exI [of _ l] exI [of _ rr] conjI)
next
  assume "sendGifPattern s = Some m"
  from extract_sendGif_match [OF this] obtain pre post where
    a: "s = pre @ js ''%sendGif%'' @ post"
       "index m = length pre" "whole m = js ''%sendGif%''" "group1 m = None"
       "\<forall>j < length pre. sendGif_at (drop j s) = None"
    and e: "extractCommand s sendGifPattern = (Undefined, trim (pre @ post))" by blast
  from trimmed_remainder [OF e] obtain l rr where
    t: "pre @ post = l @ snd (extractCommand s sendGifPattern) @ rr"
       "\<forall>c \<in> set l. isWhiteSpace c" "\<forall>c \<in> set rr. isWhiteSpace c"
       "\<forall>c cs. snd (extractCommand s sendGifPattern) = c # cs \<longrightarrow> \<not> isWhiteSpace c"
       "\<forall>cs c. snd (extractCommand s sendGifPattern) = cs @ [c] \<longrightarrow> \<not> isWhiteSpace c"
    by blast
  show "\<exists>pre post l rr. s = pre @ js ''%sendGif%'' @ post
           \<and> index m = length pre \<and> whole m = js ''%sendGif%'' \<and> group1 m = None
           \<and> (\<forall>j < length pre. sendGif_at (drop j s) = None)
           \<and> extractCommand s sendGifPattern = (Undefined, trim (pre @ post))
           \<and> pre @ post = l @ snd (extractCommand s sendGifPattern) @ rr
           \<and> (\<forall>c \<in> set l. isWhiteSpace c) \<and> (\<forall>c \<in> set rr. isWhiteSpace c)
           \<and> (\<forall>c cs. snd (extractCommand s sendGifPattern) = c # cs \<longrightarrow> \<not> isWhiteSpace c)
           \<and> (\<forall>cs c. snd (extractCommand s sendGifPattern) = cs @ [c] \<longrightarrow> \<not> isWhiteSpace c)"
    using a e t
    by (intro exI [of _ pre] exI [of _ post] exI [of _ l] exI [of _ rr] conjI)
next
  show "extractCommand (js ''hi %Reaction('' @ [0xD83D, 0xDE00] @ js '')% there'') reactionPattern
       = (Str [0xD83D, 0xDE00], js ''hi  there'')"
    by (simp add: extractCommand_def reactionPattern_def reaction_at_def js_def trim_def isWhiteSpace_def)
next
  show "extractCommand ([0x9, 0x20] @ js ''hi %Reaction('' @ [0xD83D, 0xDE00] @ js '')% there'' @ [0x20, 0xA])
         reactionPattern
       = (Str [0xD83D, 0xDE00], js ''hi  there'')"
    by (simp add: extractCommand_def reactionPattern_def reaction_at_def js_def trim_def isWhiteSpace_def)
qed

theorem extractCommand_removes_match_witness:
  "reactionPattern (js ''  a %Reaction(x)% b %Reaction(y)% '')
     = Some \<lparr>index = 4, whole = js ''%Reaction(x)%'', group1 = Some (js ''x'')\<rparr>
   \<and> extractCommand (js ''  a %Reaction(x)% b %Reaction(y)% '') reactionPattern
     = (Str (js ''x''), js ''a  b %Reaction(y)%'')
   \<and> sendGifPattern ([0xA0] @ js ''%sendGif%%sendGif% ok'' @ [0xA])
     = Some \<lparr>index = 1, whole = js ''%sendGif%'', group1 = None\<rparr>
   \<and> extractCommand ([0xA0] @ js ''%sendGif%%sendGif% ok'' @ [0xA]) sendGifPattern
     = (Undefined, js ''%sendGif% ok'')
   \<and> \<not> isWhiteSpace (of_char CHR ''a'') \<and> \<not> isWhiteSpace (of_char CHR ''%'')"
proof -
  let ?s = "js ''  a %Reaction(x)% b %Reaction(y)% ''"
  let ?m = "\<lparr>index = 4, whole = js ''%Reaction(x)%'', group1 = Some (js ''x'')\<rparr>"
  let ?t = "[0xA0] @ js ''%sendGif%%sendGif% ok'' @ [0xA]"
  let ?n = "\<lparr>index = 1, whole = js ''%sendGif%'', group1 = None\<rparr>"
  have a: "reactionPattern ?s = Some ?m"
    by (simp add: reactionPattern_def reaction_at_def js_def)
  from extractCommand_removes_match [of ?s ?m, THEN conjunct1, THEN mp, OF a]
  obtain pre r post l rr where
    g: "group1 ?m = Some r"
    and e: "extractCommand ?s reactionPattern = (Str r, trim (pre @ post))"
    and h: "\<forall>c cs. snd (extractCommand ?s reactionPattern) = c # cs \<longrightarrow> \<not> isWhiteSpace c"
    and k: "\<forall>cs c. snd (extractCommand ?s reactionPattern) = cs @ [c] \<longrightarrow> \<not> isWhiteSpace c"
    by (elim exE conjE)
  from g e have f: "fst (extractCommand ?s reactionPattern) = Str (js ''x'')"
    by simp
  have sn: "snd (extractCommand ?s reactionPattern) = js ''a  b %Reaction(y)%''"
    by (simp add: extractCommand_def reactionPattern_def reaction_at_def js_def trim_def isWhiteSpace_def)
  from f sn have c: "extractCommand ?s reactionPattern = (Str (js ''x''), js ''a  b %Reaction(y)%'')"
    by (simp add: prod_eq_iff)
  have "js ''a  b %Reaction(y)%'' = of_char CHR ''a'' # js ''  b %Reaction(y)%''"
    and "js ''a  b %Reaction(y)%'' = js ''a  b %Reaction(y)'' @ [of_char CHR ''%'']"
    by (simp_all add: js_def)
  with h k sn have w: "\<not> isWhiteSpace (of_char CHR ''a'') \<and> \<not> isWhiteSpace (of_char CHR ''%'')"
    by metis
  have b: "sendGifPattern ?t = Some ?n"
    by (simp add: sendGifPattern_def sendGif_at_def js_def)
  from extractCommand_removes_match [of ?t ?n, THEN conjunct2, THEN conjunct1, THEN mp, OF b]
  obtain pre' post' where
    e': "extractCommand ?t sendGifPattern = (Undefined, trim (pre' @ post'))"
    by (elim exE conjE)
  then have f': "fst (extractCommand ?t sendGifPattern) = Undefined"
    by simp
  have sn': "snd (extractCommand ?t sendGifPattern) = js ''%sendGif% ok''"
    by (simp add: extractCommand_def sendGifPattern_def sendGif_at_def js_def trim_def isWhiteSpace_def)
  from f' sn' have d: "extractCommand ?t sendGifPattern = (Undefined, js ''%sendGif% ok'')"
    by (simp add: prod_eq_iff)
  from a c b d w show ?thesis by (intro conjI) simp_all
qed

lemma reaction_tag_found:
  assumes "r \<noteq> []" and "0x29 \<notin> set r"
  shows "reactionPattern (a @ js ''%Reaction('' @ r @ js '')%'' @ b) \<noteq> None"
proof -
  have "reaction_at (drop (length a) (a @ js ''%Reaction('' @ r @ js '')%'' @ b)) \<noteq> None"
    using reaction_at_intro [OF assms, of b] by simp
  then show ?thesis
    unfolding reactionPattern_def by (intro exec_from_complete [of "length a"]) auto
qed

lemma sendGif_tag_found: "sendGifPattern (a @ js ''%sendGif%'' @ b) \<noteq> None"
proof -
  have "sendGif_at (drop (length a) (a @ js ''%sendGif%'' @ b)) \<noteq> None"
    unfolding sendGif_at_def by (simp add: js_def)
  then show ?thesis
    unfolding sendGifPattern_def by (intro exec_from_complete [of "length a"]) auto
qed

lemma extract_match_trimmed:
  assumes "pattern s = Some m"
  shows "snd (extractCommand s pattern) = trim (replace_str s (whole m) [])"
  using assms by (simp add: extractCommand_def)

text \<open>
  C10. After a match the returned text is trimmed as a whole: it neither starts nor
  ends with a white-space code unit, wherever the tag stood; a text that contains a
  tag does match. Without a match the text comes back as it is, white space
  included.
\<close>

theorem extractCommand_trims_both_ends:
  "(pattern s \<noteq> None \<longrightarrow>
      (\<forall>c cs. snd (extractCommand s pattern) = c # cs \<longrightarrow> \<not> isWhiteSpace c)
      \<and> (\<forall>cs c. snd (extractCommand s pattern) = cs @ [c] \<longrightarrow> \<not> isWhiteSpace c))
   \<and> (pattern s = None \<longrightarrow> snd (extractCommand s pattern) = s)
   \<and> (r \<noteq> [] \<and> 0x29 \<notin> set r \<longrightarrow>
        reactionPattern (a @ js ''%Reaction('' @ r @ js '')%'' @ b) \<noteq> None)
   \<and> sendGifPattern (a @ js ''%sendGif%'' @ b) \<noteq> None
   \<and> extractCommand (js ''  hi %Reaction(x)% there  '') reactionPattern = (Str (js ''x''), js ''hi  there'')
   \<and> extractCommand (js ''  hi there  '') reactionPattern = (Null, js ''  hi there  '')"
proof (intro conjI impI allI)
  fix c cs assume "pattern s \<noteq> None" and e: "snd (extractCommand s pattern) = c # cs"
  then obtain m where "pattern s = Some m" by blast
  from extract_match_trimmed [of pattern s m, OF this] e show "\<not> isWhiteSpace c"
    by (metis trim_head)
next
  fix c cs assume "pattern s \<noteq> None" and e: "snd (extractCommand s pattern) = cs @ [c]"
  then obtain m where "pattern s = Some m" by blast
  from extract_match_trimmed [of pattern s m, OF this] e show "\<not> isWhiteSpace c"
    by (metis trim_last)
next
  assume "pattern s = None"
  then show "snd (extractCommand s pattern) = s" by (simp add: extractCommand_def)
next
  assume "r \<noteq> [] \<and> 0x29 \<notin> set r"
  then show "reactionPattern (a @ js ''%Reaction('' @ r @ js '')%'' @ b) \<noteq> None"
    by (simp add: reaction_tag_found)
next
  show "sendGifPattern (a @ js ''%sendGif%'' @ b) \<noteq> None"
    by (rule sendGif_tag_found)
next
  show "extractCommand (js ''  hi %Reaction(x)% there  '') reactionPattern = (Str (js ''x''), js ''hi  there'')"
    by (simp add: extractCommand_def reactionPattern_def reaction_at_def js_def trim_def isWhiteSpace_def)
next
  show "extractCommand (js ''  hi there  '') reactionPattern = (Null, js ''  hi there  '')"
    by (simp add: extractCommand_def reactionPattern_def reaction_at_def js_def)
qed

theorem extractCommand_trims_both_ends_witness:
  "sendGifPattern ([0x20, 0xA0] @ js ''%sendGif%'' @ js ''ok'' @ [0x3000, 0xA]) \<noteq> None
   \<and> extractCommand ([0x20, 0xA0] @ js ''%sendGif%'' @ js ''ok'' @ [0x3000, 0xA]) sendGifPattern
       = (Undefined, js ''ok'')
   \<and> \<not> isWhiteSpace (of_char CHR ''o'') \<and> \<not> isWhiteSpace (of_char CHR ''k'')
   \<and> reactionPattern ([0x20] @ js ''ok'' @ [0xA]) = None
   \<and> snd (extractCommand ([0x20] @ js ''ok'' @ [0xA]) reactionPattern) = [0x20] @ js ''ok'' @ [0xA]
   \<and> js ''x'' \<noteq> [] \<and> 0x29 \<notin> set (js ''x'')
   \<and> reactionPattern ([0x20] @ js ''%Reaction('' @ js ''x'' @ js '')%'' @ [0x20]) \<noteq> None"
proof -
  have x: "js ''x'' \<noteq> [] \<and> 0x29 \<notin> set (js ''x'')" by (simp add: js_def)
  have y: "reactionPattern ([0x20] @ js ''%Reaction('' @ js ''x'' @ js '')%'' @ [0x20]) \<noteq> None"
    using extractCommand_trims_both_ends [of reactionPattern "[]" "js ''x''" "[0x20]" "[0x20]"] x
    by blast
  let ?s = "[0x20, 0xA0] @ js ''%sendGif%'' @ js ''ok'' @ [0x3000, 0xA]"
  let ?t = "[0x20] @ js ''ok'' @ [0xA]"
  note main = extractCommand_trims_both_ends
  have f: "sendGifPattern ?s \<noteq> None"
    using main [of sendGifPattern "[]" "[]" "[0x20, 0xA0]" "js ''ok'' @ [0x3000, 0xA]"]
    by blast
  have e: "extractCommand ?s sendGifPattern = (Undefined, js ''ok'')"
    by (simp add: extractCommand_def sendGifPattern_def sendGif_at_def js_def trim_def isWhiteSpace_def)
  have o: "snd (extractCommand ?s sendGifPattern) = of_char CHR ''o'' # [of_char CHR ''k'']"
    using e by (simp add: js_def)
  have k: "snd (extractCommand ?s sendGifPattern) = [of_char CHR ''o''] @ [of_char CHR ''k'']"
    using e by (simp add: js_def)
  have w: "\<not> isWhiteSpace (of_char CHR ''o'') \<and> \<not> isWhiteSpace (of_char CHR ''k'')"
    using main [of sendGifPattern ?s "[]" "[]" "[]"] f o k by blast
  have n: "reactionPattern ?t = None"
    by (simp add: reactionPattern_def reaction_at_def js_def)
  have u: "snd (extractCommand ?t reactionPattern) = ?t"
    using main [of reactionPattern ?t "[]" "[]" "[]"] n by blast
  from f e w n u x y show ?thesis by blast
qed

section \<open>What the handlers leave unchanged\<close>

lemma logEvent_fields [simp]:
  "messageContexts (logEvent e t x u st) = messageContexts st"
  "lastBotMessages (logEvent e t x u st) = lastBotMessages st"
  "gifs (logEvent e t x u st) = gifs st"
  "calls (logEvent e t x u st) = calls st"
  by (simp_all add: logEvent_def)

lemma handleError_fields [simp]:
  "messageContexts (handleError m e u st) = messageContexts st"
  "lastBotMessages (handleError m e u st) = lastBotMessages st"
  "gifs (handleError m e u st) = gifs st"
  "calls (handleError m e u st) = calls st"
  by (simp_all add: handleError_def)

lemma failed_fields [simp]:
  "messageContexts (failed u e st) = messageContexts st"
  "lastBotMessages (failed u e st) = lastBotMessages st"
  "gifs (failed u e st) = gifs st"
  "calls (failed u e st) = calls st"
  by (simp_all add: failed_def)

lemma do_call_fields [simp]:
  "messageContexts (do_call c st) = messageContexts st"
  "lastBotMessages (do_call c st) = lastBotMessages st"
  "gifs (do_call c st) = gifs st"
  "logs (do_call c st) = logs st"
  "calls (do_call c st) = calls st @ [c]"
  by (simp_all add: do_call_def)

lemma getAIResponse_fields [simp]:
  "messageContexts (snd (getAIResponse cfg w p c u st)) = messageContexts st"
  "lastBotMessages (snd (getAIResponse cfg w p c u st)) = lastBotMessages st"
  "gifs (snd (getAIResponse cfg w p c u st)) = gifs st"
  "calls (snd (getAIResponse cfg w p c u st))
     = calls st @ [Post (AI_URL cfg) \<lparr>model = AI_MODEL cfg, messages = ai_messages cfg p c\<rparr>]"
  by (simp_all add: getAIResponse_def Let_def split: result.split option.split)

lemma handleReaction_fields [simp]:
  "messageContexts (snd (handleReaction w ctx r st)) = messageContexts st"
  "lastBotMessages (snd (handleReaction w ctx r st)) = lastBotMessages st"
  "gifs (snd (handleReaction w ctx r st)) = gifs st"
  by (simp_all add: handleReaction_def Let_def split: result.split option.split js_value.split)

lemma handleGifCommand_fields [simp]:
  "messageContexts (snd (handleGifCommand w ctx st)) = messageContexts st"
  "lastBotMessages (snd (handleGifCommand w ctx st)) = lastBotMessages st"
  "gifs (snd (handleGifCommand w ctx st)) = gifs st"
  by (simp_all add: handleGifCommand_def Let_def split: result.split)

lemma deliver_contexts:
  "messageContexts (deliver w ctx chatId userId turns body r g final st) = messageContexts st
   \<or> (r \<and> messageContexts (deliver w ctx chatId userId turns body r g final st)
           = (messageContexts st)(chatId \<mapsto> slice_last 18 turns
               @ [\<lparr>role = js ''user'', content = body\<rparr>,
                  \<lparr>role = js ''assistant'', content = final\<rparr>]))"
  by (simp add: deliver_def Let_def split: result.split)

lemma respond_contexts:
  "messageContexts (respond w ctx chatId userId turns body r ai st) = messageContexts st
   \<or> (\<exists>final. r \<and> final \<noteq> []
        \<and> messageContexts (respond w ctx chatId userId turns body r ai st)
           = (messageContexts st)(chatId \<mapsto> slice_last 18 turns
               @ [\<lparr>role = js ''user'', content = body\<rparr>,
                  \<lparr>role = js ''assistant'', content = final\<rparr>]))"
proof -
  obtain reaction clean where e1: "extractCommand ai reactionPattern = (reaction, clean)"
    by (cases "extractCommand ai reactionPattern")
  obtain g final where e2: "extractCommand clean sendGifPattern = (g, final)"
    by (cases "extractCommand clean sendGifPattern")
  define st4 where "st4 = (if truthy g then snd (handleGifCommand w ctx (snd (handleReaction w ctx reaction st)))
                           else snd (handleReaction w ctx reaction st))"
  have m4: "messageContexts st4 = messageContexts st" by (simp add: st4_def)
  have r: "respond w ctx chatId userId turns body r ai st
             = (if final \<noteq> [] then deliver w ctx chatId userId turns body r g final st4 else st4)"
    by (simp add: respond_def e1 e2 st4_def Let_def)
  show ?thesis
  proof (cases "final = []")
    case True
    then show ?thesis using r m4 by simp
  next
    case False
    then show ?thesis
      using r m4 deliver_contexts [of w ctx chatId userId turns body r g final st4] by auto
  qed
qed

lemma handleMessage_contexts:
  "messageContexts (handleMessage cfg w ctx body r st) = messageContexts st
   \<or> (\<exists>chatId final. chat_id ctx = Some chatId \<and> r \<and> final \<noteq> []
        \<and> messageContexts (handleMessage cfg w ctx body r st)
           = (messageContexts st)(chatId \<mapsto> slice_last 18 (loadContext True chatId st)
               @ [\<lparr>role = js ''user'', content = body\<rparr>,
                  \<lparr>role = js ''assistant'', content = final\<rparr>]))"
proof (cases "chat_id ctx")
  case None
  then show ?thesis by (simp add: handleMessage_def)
next
  case (Some chatId)
  note chat = this
  show ?thesis
  proof (cases "from_user ctx")
    case None
    then show ?thesis using chat by (simp add: handleMessage_def)
  next
    case (Some sender)
    note sender = this
    show ?thesis
    proof (cases "chatId = 0 \<or> from_id sender = 0")
      case True
      then show ?thesis using chat sender by (auto simp: handleMessage_def)
    next
      case False
      note ids = this
      let ?st1 = "do_call (SendChatAction chatId (js ''typing'')) st"
      show ?thesis
      proof (cases "typing1 w")
        case (Throws e)
        then show ?thesis using chat sender ids by (simp add: handleMessage_def Let_def)
      next
        case (Returns u)
        obtain ai st2 where g: "getAIResponse cfg w (userName sender @ js '': '' @ body)
                 (loadContext r chatId st) (from_id sender) ?st1 = (ai, st2)"
          by (cases "getAIResponse cfg w (userName sender @ js '': '' @ body)
                 (loadContext r chatId st) (from_id sender) ?st1")
        have "messageContexts (snd (getAIResponse cfg w (userName sender @ js '': '' @ body)
                 (loadContext r chatId st) (from_id sender) ?st1)) = messageContexts st"
          by simp
        then have m2: "messageContexts st2 = messageContexts st"
          unfolding g by simp
        show ?thesis
        proof (cases ai)
          case None
          then show ?thesis using chat sender ids Returns g m2
            by (simp add: handleMessage_def Let_def)
        next
          case (Some a)
          then have h: "handleMessage cfg w ctx body r st
                  = respond w ctx chatId (from_id sender) (loadContext r chatId st) body r a st2"
            using chat sender ids Returns g by (simp add: handleMessage_def Let_def)
          from respond_contexts [of w ctx chatId "from_id sender" "loadContext r chatId st" body r a st2]
          show ?thesis unfolding h m2 using chat by auto
        qed
      qed
    qed
  qed
qed

section \<open>The bound on the stored context\<close>

lemma handleGifUpload_contexts [simp]:
  "messageContexts (handleGifUpload cfg w ctx st) = messageContexts st"
  by (simp add: handleGifUpload_def Let_def split: result.split option.split)

lemma perform_bound:
  assumes "\<forall>chat c. messageContexts st chat = Some c \<longrightarrow> length c \<le> 20"
  shows "\<forall>chat c. messageContexts (perform cfg st wk) chat = Some c \<longrightarrow> length c \<le> 20"
proof (cases wk)
  case (Message w ctx body r)
  from handleMessage_contexts [of cfg w ctx body r st] show ?thesis
  proof
    assume "messageContexts (handleMessage cfg w ctx body r st) = messageContexts st"
    then show ?thesis using assms Message by simp
  next
    assume "\<exists>chatId final. chat_id ctx = Some chatId \<and> r \<and> final \<noteq> []
        \<and> messageContexts (handleMessage cfg w ctx body r st)
           = (messageContexts st)(chatId \<mapsto> slice_last 18 (loadContext True chatId st)
               @ [\<lparr>role = js ''user'', content = body\<rparr>,
                  \<lparr>role = js ''assistant'', content = final\<rparr>])"
    then obtain chatId final where
      m: "messageContexts (handleMessage cfg w ctx body r st)
           = (messageContexts st)(chatId \<mapsto> slice_last 18 (loadContext True chatId st)
               @ [\<lparr>role = js ''user'', content = body\<rparr>,
                  \<lparr>role = js ''assistant'', content = final\<rparr>])" by blast
    have "length (slice_last 18 (loadContext True chatId st)
               @ [\<lparr>role = js ''user'', content = body\<rparr>,
                  \<lparr>role = js ''assistant'', content = final\<rparr>]) \<le> 20"
      by (simp add: length_slice_last)
    then show ?thesis using assms Message m by (auto split: if_splits)
  qed
next
  case (GifUpload w ctx)
  then show ?thesis using assms by simp
qed

lemma run_bound:
  "\<forall>chat c. messageContexts st chat = Some c \<longrightarrow> length c \<le> 20 \<Longrightarrow>
   \<forall>chat c. messageContexts (run cfg ws st) chat = Some c \<longrightarrow> length c \<le> 20"
proof (induction ws arbitrary: st)
  case Nil
  then show ?case by (simp add: run_def)
next
  case (Cons wk ws)
  from Cons.IH [OF perform_bound [OF Cons.prems, of cfg wk]] show ?case
    by (simp add: run_def)
qed

text \<open>
  C1, as amended. The stored context never exceeds 20 turns, whatever units of work
  ran since the start: \<open>handleMessage\<close> either leaves \<open>messageContexts\<close> as it was
  or, for a reply to the bot with a non-empty final text, stores the last 18 turns
  of the previous context followed by the new user turn and the new assistant turn.
  The truncation comes before the two turns are added, not after.
\<close>

theorem context_length_bound:
  "(\<forall>chat c. messageContexts (run cfg ws initial_state) chat = Some c \<longrightarrow> length c \<le> 20)
   \<and> (messageContexts (handleMessage cfg w ctx body r st) = messageContexts st
      \<or> (\<exists>chatId final. chat_id ctx = Some chatId \<and> r \<and> final \<noteq> []
          \<and> messageContexts (handleMessage cfg w ctx body r st)
             = (messageContexts st)(chatId \<mapsto> slice_last 18 (loadContext True chatId st)
                 @ [\<lparr>role = js ''user'', content = body\<rparr>,
                    \<lparr>role = js ''assistant'', content = final\<rparr>])))"
proof
  show "\<forall>chat c. messageContexts (run cfg ws initial_state) chat = Some c \<longrightarrow> length c \<le> 20"
    by (rule run_bound) (simp add: initial_state_def)
next
  show "messageContexts (handleMessage cfg w ctx body r st) = messageContexts st
      \<or> (\<exists>chatId final. chat_id ctx = Some chatId \<and> r \<and> final \<noteq> []
          \<and> messageContexts (handleMessage cfg w ctx body r st)
             = (messageContexts st)(chatId \<mapsto> slice_last 18 (loadContext True chatId st)
                 @ [\<lparr>role = js ''user'', content = body\<rparr>,
                    \<lparr>role = js ''assistant'', content = final\<rparr>]))"
    by (rule handleMessage_contexts)
qed

lemma exchange_ok_contexts:
  "messageContexts (handleMessage cfg (world_ok (js ''ok'')) example_ctx body True st)
     = (messageContexts st)(7 \<mapsto> slice_last 18 (loadContext True 7 st)
          @ [\<lparr>role = js ''user'', content = body\<rparr>, \<lparr>role = js ''assistant'', content = js ''ok''\<rparr>])"
proof -
  have e1: "extractCommand (js ''ok'') reactionPattern = (Null, js ''ok'')"
    by (simp add: extractCommand_def reactionPattern_def reaction_at_def js_def)
  have e2: "extractCommand (js ''ok'') sendGifPattern = (Null, js ''ok'')"
    by (simp add: extractCommand_def sendGifPattern_def sendGif_at_def js_def)
  have ne: "js ''ok'' \<noteq> []" by (simp add: js_def)
  have r: "messageContexts (respond (world_ok (js ''ok'')) example_ctx 7 3 turns body True (js ''ok'') st2)
        = (messageContexts st2)(7 \<mapsto> slice_last 18 turns
          @ [\<lparr>role = js ''user'', content = body\<rparr>, \<lparr>role = js ''assistant'', content = js ''ok''\<rparr>])"
    for turns st2
    by (simp add: respond_def e1 e2 ne deliver_def Let_def world_ok_def)
  have g: "getAIResponse cfg (world_ok (js ''ok'')) p c u s
         = (Some (js ''ok''), snd (getAIResponse cfg (world_ok (js ''ok'')) p c u s))" for p c u s
    by (simp add: getAIResponse_def world_ok_def ne Let_def)
  have "handleMessage cfg (world_ok (js ''ok'')) example_ctx body True st
      = respond (world_ok (js ''ok'')) example_ctx 7 3 (loadContext True 7 st) body True (js ''ok'')
          (snd (getAIResponse cfg (world_ok (js ''ok'')) (userName \<lparr>from_id = 3, first_name = js ''Al'', last_name = None\<rparr> @ js '': '' @ body)
             (loadContext True 7 st) 3 (do_call (SendChatAction 7 (js ''typing'')) st)))"
    apply (simp add: handleMessage_def example_ctx_def Let_def)
    apply (subst g)
    apply (simp add: world_ok_def)
    done
  then show ?thesis by (simp add: r)
qed

lemma exchange_ok_length:
  "(case messageContexts (handleMessage cfg (world_ok (js ''ok'')) example_ctx body True st) 7 of
      None \<Rightarrow> 0 | Some c \<Rightarrow> length c)
   = min 18 (case messageContexts st 7 of None \<Rightarrow> 0 | Some c \<Rightarrow> length c) + 2"
  by (simp add: exchange_ok_contexts length_slice_last loadContext_def split: option.split)

lemma ten_exchanges:
  "(case messageContexts (run example_config
       (replicate 10 (Message (world_ok (js ''ok'')) example_ctx (js ''hey'') True)) initial_state) 7 of
      None \<Rightarrow> 0 | Some c \<Rightarrow> length c) = 20"
proof -
  have i: "(case messageContexts initial_state 7 of None \<Rightarrow> 0 | Some c \<Rightarrow> length c) = (0::nat)"
    by (simp add: initial_state_def)
  have "replicate 10 x = [x, x, x, x, x, x, x, x, x, x]" for x :: work
    by (simp add: numeral_eq_Suc)
  then show ?thesis
    by (simp add: run_def exchange_ok_length i)
qed

text \<open>
  C1 as stated fails: after ten successful exchanges in one chat, each a reply to
  the bot, the stored context holds 20 turns, more than 18.
\<close>

theorem context_length_exceeds_18:
  "map_option length (messageContexts (run example_config
       (replicate 10 (Message (world_ok (js ''ok'')) example_ctx (js ''hey'') True)) initial_state) 7)
   = Some 20
   \<and> \<not> (20::nat) \<le> 18"
  using ten_exchanges
  by (cases "messageContexts (run example_config
       (replicate 10 (Message (world_ok (js ''ok'')) example_ctx (js ''hey'') True)) initial_state) 7")
     simp_all

theorem context_length_bound_witness:
  "messageContexts (run example_config
       [Message (world_ok (js ''ok'')) example_ctx (js ''hey'') True] initial_state) 7
     = Some [\<lparr>role = js ''user'', content = js ''hey''\<rparr>, \<lparr>role = js ''assistant'', content = js ''ok''\<rparr>]
   \<and> length [\<lparr>role = js ''user'', content = js ''hey''\<rparr>, \<lparr>role = js ''assistant'', content = js ''ok''\<rparr>] \<le> 20"
proof -
  have a: "messageContexts (run example_config
       [Message (world_ok (js ''ok'')) example_ctx (js ''hey'') True] initial_state) 7
     = Some [\<lparr>role = js ''user'', content = js ''hey''\<rparr>, \<lparr>role = js ''assistant'', content = js ''ok''\<rparr>]"
    by (simp add: run_def exchange_ok_contexts loadContext_def initial_state_def slice_last_def)
  with context_length_bound [of example_config
       "[Message (world_ok (js ''ok'')) example_ctx (js ''hey'') True]"] 
  show ?thesis by blast
qed

section \<open>Deduplication of uploads\<close>

lemma deliver_gifs [simp]: "gifs (deliver w ctx chatId userId turns body r g final st) = gifs st"
  by (simp add: deliver_def Let_def split: result.split)

lemma respond_gifs [simp]: "gifs (respond w ctx chatId userId turns body r ai st) = gifs st"
  by (simp add: respond_def Let_def split: prod.split)

lemma handleMessage_gifs [simp]: "gifs (handleMessage cfg w ctx body r st) = gifs st"
proof -
  have "gifs (case getAIResponse cfg w p c u s of (None, st2) \<Rightarrow> st2
              | (Some ai, st2) \<Rightarrow> respond w ctx chatId userId turns body r ai st2) = gifs s"
    for p c u s chatId userId turns
    using getAIResponse_fields(3) [of cfg w p c u s]
    by (cases "getAIResponse cfg w p c u s") (auto split: option.split)
  then show ?thesis
    by (simp add: handleMessage_def Let_def split: option.split result.split)
qed

lemma upload_known_hash:
  assumes "getFile w = Returns f" and "\<exists>x \<in> set (gifs st). hash x = file_unique_id f"
  shows "handleGifUpload cfg w ctx st = do_call GetFile st"
  using assms by (simp add: handleGifUpload_def Let_def split: option.split)

lemma upload_new_hash:
  assumes "getFile w = Returns f" and "file_path f = Some p" and "p \<noteq> []"
    and "\<forall>x \<in> set (gifs st). hash x \<noteq> file_unique_id f" and "download w = Returns d"
  shows "gifs (handleGifUpload cfg w ctx st)
           = gifs st @ [\<lparr>base64 = d, hash = file_unique_id f,
                         url = js ''t.me/'' @ opt_num_str (chat_id ctx) @ js ''/''
                               @ opt_num_str (message_id ctx)\<rparr>]"
  using assms by (auto simp: handleGifUpload_def Let_def insert_or_ignore_def)

lemma upload_distinct:
  assumes "distinct (map hash (gifs st))"
  shows "distinct (map hash (gifs (handleGifUpload cfg w ctx st)))"
proof -
  have "gifs (handleGifUpload cfg w ctx st) = gifs st
        \<or> (\<exists>row. hash row \<notin> hash ` set (gifs st) \<and> gifs (handleGifUpload cfg w ctx st) = gifs st @ [row])"
    by (auto simp: handleGifUpload_def Let_def insert_or_ignore_def split: result.split option.split)
  then show ?thesis using assms by auto
qed

lemma run_distinct:
  "distinct (map hash (gifs st)) \<Longrightarrow> distinct (map hash (gifs (run cfg ws st)))"
proof (induction ws arbitrary: st)
  case Nil
  then show ?case by (simp add: run_def)
next
  case (Cons wk ws)
  have "distinct (map hash (gifs (perform cfg st wk)))"
    using Cons.prems by (cases wk) (simp_all add: upload_distinct)
  from Cons.IH [OF this] show ?case by (simp add: run_def)
qed

lemma one_row_per_key:
  "distinct (map hash xs) \<Longrightarrow> x \<in> set xs \<Longrightarrow>
   length (filter (\<lambda>y. hash y = hash x \<and> url y = url x) xs) = 1"
proof (induction xs)
  case Nil
  then show ?case by simp
next
  case (Cons a xs)
  show ?case
  proof (cases "a = x")
    case True
    have "hash x \<notin> hash ` set xs" using Cons.prems(1) True by simp
    then have "\<forall>y \<in> set xs. \<not> (hash y = hash x \<and> url y = url x)" by (metis imageI)
    then have "filter (\<lambda>y. hash y = hash x \<and> url y = url x) xs = []"
      by (simp only: filter_empty_conv) 
    then show ?thesis using True by simp
  next
    case False
    then have "x \<in> set xs" using Cons.prems(2) by simp
    moreover from this have "hash a \<noteq> hash x" using Cons.prems(1) by auto
    ultimately show ?thesis using Cons by simp
  qed
qed

text \<open>
  C2, as amended. The ingestion deduplicates on the content hash alone. When a row
  with the hash of the uploaded file is already stored, whatever its origin, the
  upload changes neither \<open>gifs\<close> nor \<open>logs\<close> and fetches nothing, so a stored
  \<open>(hash, url)\<close> pair stays stored exactly once. When no row has that hash (and
  the file has a path and the download succeeds), one row with the hash and the
  origin of the message is added. Hence no two rows ever share a hash.
\<close>

theorem gif_dedup_by_hash:
  "(getFile w = Returns f \<and> x \<in> set (gifs st) \<and> hash x = file_unique_id f \<longrightarrow>
      gifs (handleGifUpload cfg w ctx st) = gifs st
      \<and> logs (handleGifUpload cfg w ctx st) = logs st
      \<and> calls (handleGifUpload cfg w ctx st) = calls st @ [GetFile]
      \<and> (distinct (map hash (gifs st)) \<longrightarrow>
           length (filter (\<lambda>y. hash y = hash x \<and> url y = url x)
                     (gifs (handleGifUpload cfg w ctx st))) = 1))
   \<and> (getFile w = Returns f \<and> file_path f = Some p \<and> p \<noteq> []
        \<and> (\<forall>y \<in> set (gifs st). hash y \<noteq> file_unique_id f) \<and> download w = Returns d \<longrightarrow>
      gifs (handleGifUpload cfg w ctx st)
        = gifs st @ [\<lparr>base64 = d, hash = file_unique_id f,
                      url = js ''t.me/'' @ opt_num_str (chat_id ctx) @ js ''/''
                            @ opt_num_str (message_id ctx)\<rparr>])
   \<and> distinct (map hash (gifs (run cfg ws initial_state)))"
proof (intro conjI impI)
  assume a: "getFile w = Returns f \<and> x \<in> set (gifs st) \<and> hash x = file_unique_id f"
  then have h: "handleGifUpload cfg w ctx st = do_call GetFile st"
    by (intro upload_known_hash [of w f]) auto
  show "gifs (handleGifUpload cfg w ctx st) = gifs st" by (simp add: h)
  show "logs (handleGifUpload cfg w ctx st) = logs st" by (simp add: h)
  show "calls (handleGifUpload cfg w ctx st) = calls st @ [GetFile]" by (simp add: h)
  assume "distinct (map hash (gifs st))"
  moreover from a have "x \<in> set (gifs st)" by simp
  ultimately have "length (filter (\<lambda>y. hash y = hash x \<and> url y = url x) (gifs st)) = 1"
    by (rule one_row_per_key)
  then show "length (filter (\<lambda>y. hash y = hash x \<and> url y = url x)
                     (gifs (handleGifUpload cfg w ctx st))) = 1"
    by (simp add: h)
next
  assume "getFile w = Returns f \<and> file_path f = Some p \<and> p \<noteq> []
        \<and> (\<forall>y \<in> set (gifs st). hash y \<noteq> file_unique_id f) \<and> download w = Returns d"
  then show "gifs (handleGifUpload cfg w ctx st)
        = gifs st @ [\<lparr>base64 = d, hash = file_unique_id f,
                      url = js ''t.me/'' @ opt_num_str (chat_id ctx) @ js ''/''
                            @ opt_num_str (message_id ctx)\<rparr>]"
    by (intro upload_new_hash [of w f p]) auto
next
  show "distinct (map hash (gifs (run cfg ws initial_state)))"
    by (rule run_distinct) (simp add: initial_state_def)
qed

lemma digits_small: "n < 10 \<Longrightarrow> digits n = [of_nat (48 + n)]"
  by (subst digits.simps) simp

lemma digits_two: "10 \<le> n \<Longrightarrow> n < 100 \<Longrightarrow> digits n = [of_nat (48 + n div 10), of_nat (48 + n mod 10)]"
  by (subst digits.simps) (simp add: digits_small)

lemma first_upload:
  "gifs (handleGifUpload example_config (world_ok []) example_ctx initial_state)
     = [\<lparr>base64 = js ''AAAA'', hash = js ''AgAD'', url = js ''t.me/7/11''\<rparr>]"
  by (simp add: handleGifUpload_def world_ok_def example_ctx_def initial_state_def Let_def
        insert_or_ignore_def opt_num_str_def num_str_def digits_small digits_two js_def do_call_def logEvent_def)

text \<open>
  C2 as stated fails: the same file sent again in another message, that is the same
  hash with a distinct origin \<open>t.me/7/12\<close>, is not stored.
\<close>

theorem gif_same_hash_other_origin_dropped:
  "gifs (run example_config
      [GifUpload (world_ok []) example_ctx,
       GifUpload (world_ok []) (example_ctx\<lparr>message_id := Some 12\<rparr>)] initial_state)
   = [\<lparr>base64 = js ''AAAA'', hash = js ''AgAD'', url = js ''t.me/7/11''\<rparr>]
   \<and> js ''t.me/'' @ opt_num_str (chat_id (example_ctx\<lparr>message_id := Some 12\<rparr>)) @ js ''/''
       @ opt_num_str (message_id (example_ctx\<lparr>message_id := Some 12\<rparr>)) = js ''t.me/7/12''
   \<and> js ''t.me/7/12'' \<noteq> js ''t.me/7/11''"
proof -
  have o: "js ''t.me/'' @ opt_num_str (chat_id (example_ctx\<lparr>message_id := Some 12\<rparr>)) @ js ''/''
       @ opt_num_str (message_id (example_ctx\<lparr>message_id := Some 12\<rparr>)) = js ''t.me/7/12''
   \<and> js ''t.me/7/12'' \<noteq> js ''t.me/7/11''"
    by (simp add: example_ctx_def opt_num_str_def num_str_def digits_small digits_two js_def)
  let ?st = "handleGifUpload example_config (world_ok []) example_ctx initial_state"
  have "handleGifUpload example_config (world_ok []) (example_ctx\<lparr>message_id := Some 12\<rparr>) ?st
          = do_call GetFile ?st"
  proof (rule upload_known_hash)
    show "getFile (world_ok []) = Returns \<lparr>file_path = Some (js ''animations/file_0.mp4''), file_unique_id = js ''AgAD''\<rparr>"
      by (simp add: world_ok_def)
    show "\<exists>x \<in> set (gifs ?st). hash x
            = file_unique_id \<lparr>file_path = Some (js ''animations/file_0.mp4''), file_unique_id = js ''AgAD''\<rparr>"
      by (simp add: first_upload)
  qed
  then have "gifs (run example_config
      [GifUpload (world_ok []) example_ctx,
       GifUpload (world_ok []) (example_ctx\<lparr>message_id := Some 12\<rparr>)] initial_state)
   = [\<lparr>base64 = js ''AAAA'', hash = js ''AgAD'', url = js ''t.me/7/11''\<rparr>]"
    by (simp add: run_def first_upload)
  then show ?thesis using o by (rule conjI)
qed

theorem gif_dedup_by_hash_witness:
  "gifs (handleGifUpload example_config (world_ok []) example_ctx initial_state)
     = [\<lparr>base64 = js ''AAAA'', hash = js ''AgAD'', url = js ''t.me/7/11''\<rparr>]
   \<and> gifs (handleGifUpload example_config (world_ok []) example_ctx
        (initial_state\<lparr>gifs := [\<lparr>base64 = js ''AAAA'', hash = js ''AgAD'', url = js ''t.me/7/11''\<rparr>]\<rparr>))
     = [\<lparr>base64 = js ''AAAA'', hash = js ''AgAD'', url = js ''t.me/7/11''\<rparr>]
   \<and> length (filter (\<lambda>y. hash y = js ''AgAD'' \<and> url y = js ''t.me/7/11'')
        (gifs (handleGifUpload example_config (world_ok []) example_ctx
          (initial_state\<lparr>gifs := [\<lparr>base64 = js ''AAAA'', hash = js ''AgAD'', url = js ''t.me/7/11''\<rparr>]\<rparr>)))) = 1"
proof -
  let ?f = "\<lparr>file_path = Some (js ''animations/file_0.mp4''), file_unique_id = js ''AgAD''\<rparr>"
  let ?row = "\<lparr>base64 = js ''AAAA'', hash = js ''AgAD'', url = js ''t.me/7/11''\<rparr>"
  let ?st = "initial_state\<lparr>gifs := [?row]\<rparr>"
  note main = gif_dedup_by_hash [of "world_ok []" ?f ?row ?st example_config example_ctx
                 "js ''animations/file_0.mp4''" "js ''AAAA''" "[]"]
  have g: "getFile (world_ok []) = Returns ?f" by (simp add: world_ok_def)
  have d: "download (world_ok []) = Returns (js ''AAAA'')" by (simp add: world_ok_def)
  have m: "?row \<in> set (gifs ?st)" "hash ?row = file_unique_id ?f" "distinct (map hash (gifs ?st))"
    by simp_all
  from main g m have 1: "gifs (handleGifUpload example_config (world_ok []) example_ctx ?st) = gifs ?st"
    and 2: "length (filter (\<lambda>y. hash y = hash ?row \<and> url y = url ?row)
                     (gifs (handleGifUpload example_config (world_ok []) example_ctx ?st))) = 1"
    by blast+
  from gif_dedup_by_hash [of "world_ok []" ?f ?row initial_state example_config example_ctx
                 "js ''animations/file_0.mp4''" "js ''AAAA''" "[]"] g d
  have 3: "gifs (handleGifUpload example_config (world_ok []) example_ctx initial_state)
        = gifs initial_state @ [\<lparr>base64 = js ''AAAA'', hash = file_unique_id ?f,
                      url = js ''t.me/'' @ opt_num_str (chat_id example_ctx) @ js ''/''
                            @ opt_num_str (message_id example_ctx)\<rparr>]"
    by (simp add: initial_state_def js_def)
  have 4: "gifs (handleGifUpload example_config (world_ok []) example_ctx initial_state) = [?row]"
    unfolding 3
    by (simp add: initial_state_def example_ctx_def opt_num_str_def num_str_def digits_small digits_two js_def)
  from 1 2 4 show ?thesis by simp
qed

section \<open>The paths through the handler\<close>

lemma getAIResponse_Some:
  "fst (getAIResponse cfg w p c u st) = Some ai \<longleftrightarrow> backend w = Returns (Some ai) \<and> ai \<noteq> []"
  by (auto simp: getAIResponse_def Let_def split: result.split option.split)

lemma handleMessage_cases [case_names dropped typing_failed no_answer answer]:
  obtains "handleMessage cfg w ctx body r st = st"
  | chatId sender e where "chat_id ctx = Some chatId" "from_user ctx = Some sender"
      "typing1 w = Throws e"
      "handleMessage cfg w ctx body r st
         = failed (from_id sender) e (do_call (SendChatAction chatId (js ''typing'')) st)"
  | chatId sender where "chat_id ctx = Some chatId" "from_user ctx = Some sender"
      "fst (getAIResponse cfg w (userName sender @ js '': '' @ body) (loadContext r chatId st)
             (from_id sender) (do_call (SendChatAction chatId (js ''typing'')) st)) = None"
      "handleMessage cfg w ctx body r st
         = snd (getAIResponse cfg w (userName sender @ js '': '' @ body) (loadContext r chatId st)
             (from_id sender) (do_call (SendChatAction chatId (js ''typing'')) st))"
  | chatId sender ai where "chat_id ctx = Some chatId" "from_user ctx = Some sender"
      "fst (getAIResponse cfg w (userName sender @ js '': '' @ body) (loadContext r chatId st)
             (from_id sender) (do_call (SendChatAction chatId (js ''typing'')) st)) = Some ai"
      "handleMessage cfg w ctx body r st
         = respond w ctx chatId (from_id sender) (loadContext r chatId st) body r ai
            (snd (getAIResponse cfg w (userName sender @ js '': '' @ body) (loadContext r chatId st)
             (from_id sender) (do_call (SendChatAction chatId (js ''typing'')) st)))"
proof (cases "chat_id ctx")
  case None
  then have "handleMessage cfg w ctx body r st = st" by (simp add: handleMessage_def)
  then show ?thesis by (rule that(1))
next
  case (Some chatId)
  note chat = this
  show ?thesis
  proof (cases "from_user ctx")
    case None
    then have "handleMessage cfg w ctx body r st = st" using chat by (simp add: handleMessage_def)
    then show ?thesis by (rule that(1))
  next
    case (Some sender)
    note sender = this
    show ?thesis
    proof (cases "chatId = 0 \<or> from_id sender = 0")
      case True
      then have "handleMessage cfg w ctx body r st = st"
        using chat sender by (auto simp: handleMessage_def)
      then show ?thesis by (rule that(1))
    next
      case False
      note ids = this
      let ?st1 = "do_call (SendChatAction chatId (js ''typing'')) st"
      let ?g = "getAIResponse cfg w (userName sender @ js '': '' @ body) (loadContext r chatId st)
             (from_id sender) ?st1"
      show ?thesis
      proof (cases "typing1 w")
        case (Throws e)
        then have "handleMessage cfg w ctx body r st = failed (from_id sender) e ?st1"
          using chat sender ids by (simp add: handleMessage_def Let_def)
        with chat sender Throws show ?thesis by (rule that(2))
      next
        case (Returns u)
        show ?thesis
        proof (cases "fst ?g")
          case None
          then have "handleMessage cfg w ctx body r st = snd ?g"
            using chat sender ids Returns
            by (cases ?g) (simp add: handleMessage_def Let_def)
          with chat sender None show ?thesis by (rule that(3))
        next
          case (Some ai)
          then have "handleMessage cfg w ctx body r st
              = respond w ctx chatId (from_id sender) (loadContext r chatId st) body r ai (snd ?g)"
            using chat sender ids Returns
            by (cases ?g) (simp add: handleMessage_def Let_def)
          with chat sender Some show ?thesis by (rule that(4))
        qed
      qed
    qed
  qed
qed

lemma sendGif_flag_falsy: "\<not> truthy (fst (extractCommand s sendGifPattern))"
proof (cases "sendGifPattern s")
  case None
  then show ?thesis by (simp add: extractCommand_def)
next
  case (Some m)
  from extract_sendGif_match [OF this] show ?thesis by auto
qed

lemma respond_unfold:
  assumes "extractCommand ai reactionPattern = (reaction, clean)"
    and "extractCommand clean sendGifPattern = (g, final)"
  shows "respond w ctx chatId userId turns body r ai st
           = (if final \<noteq> []
              then deliver w ctx chatId userId turns body r g final (snd (handleReaction w ctx reaction st))
              else snd (handleReaction w ctx reaction st))"
proof -
  have "\<not> truthy g" using sendGif_flag_falsy [of clean] assms(2) by simp
  then show ?thesis using assms by (simp add: respond_def Let_def)
qed

section \<open>A failed backend call\<close>

lemma getAIResponse_unusable:
  assumes "backend w = Throws e \<or> backend w = Returns None \<or> backend w = Returns (Some [])"
  shows "fst (getAIResponse cfg w p c u st) = None"
  using assms by (auto simp: getAIResponse_def Let_def)

text \<open>
  C5. When the backend call throws, or returns no content or an empty one, the
  handler leaves \<open>messageContexts\<close> and \<open>lastBotMessages\<close> as they were, and
  the only calls it makes are the typing action and the backend request: no reply,
  no reaction, no animation.
\<close>

theorem backend_failure_no_reply:
  "backend w = Throws e \<or> backend w = Returns None \<or> backend w = Returns (Some []) \<longrightarrow>
     messageContexts (handleMessage cfg w ctx body r st) = messageContexts st
     \<and> lastBotMessages (handleMessage cfg w ctx body r st) = lastBotMessages st
     \<and> (\<exists>new. calls (handleMessage cfg w ctx body r st) = calls st @ new
            \<and> (\<forall>c \<in> set new. (\<exists>chat a. c = SendChatAction chat a) \<or> (\<exists>u q. c = Post u q)))"
proof
  assume a: "backend w = Throws e \<or> backend w = Returns None \<or> backend w = Returns (Some [])"
  show "messageContexts (handleMessage cfg w ctx body r st) = messageContexts st
     \<and> lastBotMessages (handleMessage cfg w ctx body r st) = lastBotMessages st
     \<and> (\<exists>new. calls (handleMessage cfg w ctx body r st) = calls st @ new
            \<and> (\<forall>c \<in> set new. (\<exists>chat a. c = SendChatAction chat a) \<or> (\<exists>u q. c = Post u q)))"
  proof (cases cfg w ctx body r st rule: handleMessage_cases)
    case dropped
    then show ?thesis by simp
  next
    case (typing_failed chatId sender e')
    then show ?thesis by simp
  next
    case (no_answer chatId sender)
    then show ?thesis by simp
  next
    case (answer chatId sender ai)
    then show ?thesis using getAIResponse_unusable [OF a] by simp
  qed
qed

theorem backend_failure_no_reply_witness:
  "backend ((world_ok [])\<lparr>backend := Throws (js ''timeout of 30000ms exceeded'')\<rparr>)
     = Throws (js ''timeout of 30000ms exceeded'')
   \<and> messageContexts (handleMessage example_config
         ((world_ok [])\<lparr>backend := Throws (js ''timeout of 30000ms exceeded'')\<rparr>)
         example_ctx (js ''hey'') True initial_state) = Map.empty
   \<and> calls (handleMessage example_config
         ((world_ok [])\<lparr>backend := Throws (js ''timeout of 30000ms exceeded'')\<rparr>)
         example_ctx (js ''hey'') True initial_state)
      = [SendChatAction 7 (js ''typing''),
         Post (js ''https://ai.example/v1/chat'')
           \<lparr>model = js ''m'',
            messages = [\<lparr>role = js ''system'', content = js ''be brief''\<rparr>,
                        \<lparr>role = js ''user'', content = js ''Al: hey''\<rparr>]\<rparr>]"
proof -
  let ?w = "(world_ok [])\<lparr>backend := Throws (js ''timeout of 30000ms exceeded'')\<rparr>"
  have b: "backend ?w = Throws (js ''timeout of 30000ms exceeded'')" by simp
  with backend_failure_no_reply [of ?w "js ''timeout of 30000ms exceeded''" example_config
          example_ctx "js ''hey''" True initial_state]
  have "messageContexts (handleMessage example_config ?w example_ctx (js ''hey'') True initial_state)
          = messageContexts initial_state"
    by blast
  then have m: "messageContexts (handleMessage example_config ?w example_ctx (js ''hey'') True initial_state)
          = Map.empty"
    by (simp add: initial_state_def)
  have c: "calls (handleMessage example_config ?w example_ctx (js ''hey'') True initial_state)
      = [SendChatAction 7 (js ''typing''),
         Post (js ''https://ai.example/v1/chat'')
           \<lparr>model = js ''m'',
            messages = [\<lparr>role = js ''system'', content = js ''be brief''\<rparr>,
                        \<lparr>role = js ''user'', content = js ''Al: hey''\<rparr>]\<rparr>]"
    by (simp add: handleMessage_def example_ctx_def example_config_def world_ok_def Let_def
          getAIResponse_def initial_state_def loadContext_def userName_def ai_messages_def
          slice_last_def handleError_def logEvent_def do_call_def js_def)
  from b m c show ?thesis by blast
qed

section \<open>The media-send flag\<close>

lemma no_animation_refl [simp]: "no_animation st st"
  by (simp add: no_animation_def)

lemma no_animation_trans: "no_animation a b \<Longrightarrow> no_animation b c \<Longrightarrow> no_animation a c"
  unfolding no_animation_def by (metis append.assoc set_append Un_iff)

lemma no_animation_log [simp]:
  "no_animation st (logEvent e t x u st')  = no_animation st st'"
  "no_animation st (handleError m e' u st') = no_animation st st'"
  "no_animation st (failed i e' st') = no_animation st st'"
  by (simp_all add: no_animation_def)

lemma no_animation_call_simps [simp]:
  "no_animation st (do_call (SendChatAction i s) st)"
  "no_animation st (do_call (Post u q) st)"
  "no_animation st (do_call (SetMessageReaction i j s) st)"
  "no_animation st (do_call (Reply s m) st)"
  by (simp_all add: no_animation_def)

lemma no_animation_update [simp]:
  "no_animation st (st'\<lparr>messageContexts := m\<rparr>) = no_animation st st'"
  "no_animation st (st'\<lparr>lastBotMessages := l\<rparr>) = no_animation st st'"
  by (simp_all add: no_animation_def)

lemma handleReaction_no_animation: "no_animation st (snd (handleReaction w ctx x st))"
  by (simp add: handleReaction_def Let_def split: js_value.split option.split result.split)

lemma getAIResponse_no_animation: "no_animation st (snd (getAIResponse cfg w p c u st))"
  by (simp add: getAIResponse_def Let_def split: option.split result.split)

lemma deliver_no_animation: "no_animation st (deliver w ctx chatId userId turns body r g final st)"
proof -
  let ?st5 = "do_call (SendChatAction chatId (js ''typing'')) st"
  have 5: "no_animation st ?st5" by simp
  have "no_animation ?st5 (deliver w ctx chatId userId turns body r g final st)"
    by (simp add: deliver_def Let_def no_animation_def split: result.split)
  with 5 show ?thesis by (rule no_animation_trans)
qed

lemma respond_no_animation: "no_animation st (respond w ctx chatId userId turns body r ai st)"
proof -
  obtain reaction clean where e1: "extractCommand ai reactionPattern = (reaction, clean)"
    by (cases "extractCommand ai reactionPattern")
  obtain g final where e2: "extractCommand clean sendGifPattern = (g, final)"
    by (cases "extractCommand clean sendGifPattern")
  let ?st3 = "snd (handleReaction w ctx reaction st)"
  have 3: "no_animation st ?st3" by (rule handleReaction_no_animation)
  show ?thesis
    unfolding respond_unfold [OF e1 e2]
    using 3 no_animation_trans [OF 3 deliver_no_animation [of ?st3 w ctx chatId userId turns body r g final]]
    by simp
qed

lemma handleMessage_no_animation: "no_animation st (handleMessage cfg w ctx body r st)"
proof (cases cfg w ctx body r st rule: handleMessage_cases)
  case dropped
  then show ?thesis by simp
next
  case (typing_failed chatId sender e)
  then show ?thesis by simp
next
  case (no_answer chatId sender)
  let ?st1 = "do_call (SendChatAction chatId (js ''typing'')) st"
  have "no_animation st ?st1" by simp
  then show ?thesis
    unfolding no_answer(4) by (rule no_animation_trans) (rule getAIResponse_no_animation)
next
  case (answer chatId sender ai)
  let ?st1 = "do_call (SendChatAction chatId (js ''typing'')) st"
  have "no_animation st ?st1" by simp
  then have "no_animation st (snd (getAIResponse cfg w (userName sender @ js '': '' @ body)
       (loadContext r chatId st) (from_id sender) ?st1))"
    by (rule no_animation_trans) (rule getAIResponse_no_animation)
  then show ?thesis
    unfolding answer(4) by (rule no_animation_trans) (rule respond_no_animation)
qed

text \<open>
  C3 does not hold of the code. \<open>/%sendGif%/\<close> has no capturing group, so the
  flag that \<open>extractCommand\<close> returns for it is \<open>null\<close> or \<open>undefined\<close>, never
  truthy; \<open>handleMessage\<close> therefore never calls \<open>handleGifCommand\<close>, and no unit of
  work sends an animation. On the answer \<open>look %sendGif%\<close>, with one stored
  animation, the tag is stripped and only the text \<open>look\<close> is sent.
\<close>

theorem sendGif_never_dispatched:
  "\<not> truthy (fst (extractCommand s sendGifPattern))
   \<and> (\<exists>new. calls (handleMessage cfg w ctx body r st) = calls st @ new
          \<and> (\<forall>a b. ReplyWithAnimation a b \<notin> set new))
   \<and> extractCommand (js ''look %sendGif%'') sendGifPattern = (Undefined, js ''look'')
   \<and> calls (handleMessage example_config (world_ok (js ''look %sendGif%'')) example_ctx (js ''hey'') False
        (initial_state\<lparr>gifs := [\<lparr>base64 = js ''AAAA'', hash = js ''AgAD'', url = js ''t.me/7/11''\<rparr>]\<rparr>))
     = [SendChatAction 7 (js ''typing''),
        Post (js ''https://ai.example/v1/chat'')
           \<lparr>model = js ''m'',
            messages = [\<lparr>role = js ''system'', content = js ''be brief''\<rparr>,
                        \<lparr>role = js ''user'', content = js ''Al: hey''\<rparr>]\<rparr>,
        SendChatAction 7 (js ''typing''),
        Reply (js ''look'') (Some 11)]"
proof (intro conjI)
  show "\<not> truthy (fst (extractCommand s sendGifPattern))" by (rule sendGif_flag_falsy)
  show "\<exists>new. calls (handleMessage cfg w ctx body r st) = calls st @ new
          \<and> (\<forall>a b. ReplyWithAnimation a b \<notin> set new)"
    using handleMessage_no_animation [of st cfg w ctx body r] by (simp add: no_animation_def)
  show e2: "extractCommand (js ''look %sendGif%'') sendGifPattern = (Undefined, js ''look'')"
    by (simp add: extractCommand_def sendGifPattern_def sendGif_at_def js_def trim_def isWhiteSpace_def)
  have e1: "extractCommand (js ''look %sendGif%'') reactionPattern = (Null, js ''look %sendGif%'')"
    by (simp add: extractCommand_def reactionPattern_def reaction_at_def js_def)
  have ne: "js ''look %sendGif%'' \<noteq> []" "js ''look'' \<noteq> []" by (simp_all add: js_def)
  have esc: "escapeMarkdown (js ''look'') = js ''look''"
    by (simp add: escapeMarkdown_def reserved_def js_def)
  have r: "calls (respond (world_ok (js ''look %sendGif%'')) example_ctx 7 3 [] (js ''hey'') False
              (js ''look %sendGif%'') st2)
        = calls st2 @ [SendChatAction 7 (js ''typing''), Reply (js ''look'') (Some 11)]" for st2
    unfolding respond_unfold [OF e1 e2]
    by (simp add: ne deliver_def Let_def world_ok_def handleReaction_def esc example_ctx_def)
  have g: "getAIResponse cfg' (world_ok (js ''look %sendGif%'')) p c u s
         = (Some (js ''look %sendGif%''), snd (getAIResponse cfg' (world_ok (js ''look %sendGif%'')) p c u s))"
    for cfg' p c u s
    by (simp add: getAIResponse_def world_ok_def ne Let_def)
  have u: "userName \<lparr>from_id = 3, first_name = js ''Al'', last_name = None\<rparr> @ js '': '' @ js ''hey'' = js ''Al: hey''"
    by (simp add: userName_def js_def)
  have h: "handleMessage example_config (world_ok (js ''look %sendGif%'')) example_ctx (js ''hey'') False st0
      = respond (world_ok (js ''look %sendGif%'')) example_ctx 7 3 [] (js ''hey'') False (js ''look %sendGif%'')
          (snd (getAIResponse example_config (world_ok (js ''look %sendGif%'')) (js ''Al: hey'')
             [] 3 (do_call (SendChatAction 7 (js ''typing'')) st0)))" for st0
    apply (simp add: handleMessage_def example_ctx_def Let_def loadContext_def u)
    apply (subst g)
    apply (simp add: world_ok_def u)
    done
  show "calls (handleMessage example_config (world_ok (js ''look %sendGif%'')) example_ctx (js ''hey'') False
        (initial_state\<lparr>gifs := [\<lparr>base64 = js ''AAAA'', hash = js ''AgAD'', url = js ''t.me/7/11''\<rparr>]\<rparr>))
     = [SendChatAction 7 (js ''typing''),
        Post (js ''https://ai.example/v1/chat'')
           \<lparr>model = js ''m'',
            messages = [\<lparr>role = js ''system'', content = js ''be brief''\<rparr>,
                        \<lparr>role = js ''user'', content = js ''Al: hey''\<rparr>]\<rparr>,
        SendChatAction 7 (js ''typing''),
        Reply (js ''look'') (Some 11)]"
    unfolding h r
    by (simp add: initial_state_def example_config_def ai_messages_def slice_last_def)
qed

section \<open>A failed reaction\<close>

lemma same_effects_refl [simp]: "same_effects s s"
  by (simp add: same_effects_def)

lemma handleReaction_same:
  "same_effects s t \<Longrightarrow>
   same_effects (snd (handleReaction w1 ctx x s)) (snd (handleReaction w2 ctx x t))"
  by (simp add: same_effects_def handleReaction_def Let_def
           split: js_value.split option.split result.split)

lemma deliver_same:
  assumes "same_effects s t" and "typing2 w1 = typing2 w2" and "reply w1 = reply w2"
  shows "same_effects (deliver w1 ctx chatId userId turns body r g final s)
                      (deliver w2 ctx chatId userId turns body r g final t)"
  using assms by (simp add: same_effects_def deliver_def Let_def split: result.split)

lemma respond_same:
  assumes "same_effects s t" and "typing2 w1 = typing2 w2" and "reply w1 = reply w2"
  shows "same_effects (respond w1 ctx chatId userId turns body r ai s)
                      (respond w2 ctx chatId userId turns body r ai t)"
proof -
  obtain reaction clean where e1: "extractCommand ai reactionPattern = (reaction, clean)"
    by (cases "extractCommand ai reactionPattern")
  obtain g final where e2: "extractCommand clean sendGifPattern = (g, final)"
    by (cases "extractCommand clean sendGifPattern")
  have 3: "same_effects (snd (handleReaction w1 ctx reaction s)) (snd (handleReaction w2 ctx reaction t))"
    using assms(1) by (rule handleReaction_same)
  show ?thesis
    unfolding respond_unfold [OF e1 e2]
    using 3 deliver_same [OF 3 assms(2,3)] by simp
qed

lemma getAIResponse_setReaction:
  "getAIResponse cfg (w\<lparr>setReaction := v\<rparr>) p c u st = getAIResponse cfg w p c u st"
  by (simp add: getAIResponse_def)

lemma handleMessage_answer:
  assumes "chat_id ctx = Some chatId" and "chatId \<noteq> 0"
    and "from_user ctx = Some sender" and "from_id sender \<noteq> 0"
    and "typing1 w = Returns u" and "backend w = Returns (Some ai)" and "ai \<noteq> []"
  shows "handleMessage cfg w ctx body r st
         = respond w ctx chatId (from_id sender) (loadContext r chatId st) body r ai
            (logEvent (js ''RESPONSE'') (Some (js ''text'')) (Some ai) (Some (from_id sender))
              (do_call (Post (AI_URL cfg) \<lparr>model = AI_MODEL cfg,
                  messages = ai_messages cfg (userName sender @ js '': '' @ body) (loadContext r chatId st)\<rparr>)
                (do_call (SendChatAction chatId (js ''typing'')) st)))"
  using assms by (simp add: handleMessage_def getAIResponse_def Let_def)

lemma handleMessage_same:
  "same_effects (handleMessage cfg (w\<lparr>setReaction := a\<rparr>) ctx body r st)
                (handleMessage cfg (w\<lparr>setReaction := b\<rparr>) ctx body r st)"
  by (simp add: handleMessage_def getAIResponse_setReaction Let_def respond_same
        split: option.split result.split prod.split)

lemma handleReaction_throws:
  assumes "setReaction w = Throws e" and "x \<noteq> []" and "message_id ctx = Some mid" and "mid \<noteq> 0"
    and "chat_id ctx = Some chatId"
  shows "handleReaction w ctx (Str x) st
         = (False, handleError (js ''Reaction failed'') e (map_option from_id (from_user ctx))
                     (do_call (SetMessageReaction chatId mid x) st))"
  using assms by (simp add: handleReaction_def Let_def)

lemma deliver_ok:
  assumes "typing2 w = Returns u" and "reply w = Returns sent"
  shows "calls (deliver w ctx chatId userId turns body r g final st)
           = calls st @ [SendChatAction chatId (js ''typing''), Reply (escapeMarkdown final) (message_id ctx)]"
    and "logs (deliver w ctx chatId userId turns body r g final st) = logs st"
    and "r \<Longrightarrow> messageContexts (deliver w ctx chatId userId turns body r g final st) chatId
           = Some (slice_last 18 turns @ [\<lparr>role = js ''user'', content = body\<rparr>,
                                          \<lparr>role = js ''assistant'', content = final\<rparr>])"
  using assms by (simp_all add: deliver_def Let_def)

text \<open>
  C8. When setting the reaction throws, the error is recorded in \<open>logs\<close> and the
  handler goes on: with the other calls succeeding, the call to set the reaction was
  made, the last call is the reply with the escaped final text, and for a reply to
  the bot the context is updated. In every case the handler makes the same calls
  and leaves the same maps and table as when setting the reaction succeeds;
  only \<open>logs\<close> differs.
\<close>

theorem reaction_failure_isolated:
  "(setReaction w = Throws e \<and> chat_id ctx = Some chatId \<and> chatId \<noteq> 0
      \<and> from_user ctx = Some sender \<and> from_id sender \<noteq> 0
      \<and> typing1 w = Returns () \<and> backend w = Returns (Some ai) \<and> ai \<noteq> []
      \<and> extractCommand ai reactionPattern = (Str x, clean)
      \<and> extractCommand clean sendGifPattern = (g, final) \<and> final \<noteq> []
      \<and> typing2 w = Returns () \<and> reply w = Returns sent
    \<longrightarrow> (\<exists>pre. calls (handleMessage cfg w ctx body r st)
                   = pre @ [Reply (escapeMarkdown final) (message_id ctx)])
        \<and> (r \<longrightarrow> messageContexts (handleMessage cfg w ctx body r st) chatId
                   = Some (slice_last 18 (loadContext True chatId st)
                           @ [\<lparr>role = js ''user'', content = body\<rparr>,
                              \<lparr>role = js ''assistant'', content = final\<rparr>]))
        \<and> (\<forall>mid. message_id ctx = Some mid \<and> mid \<noteq> 0 \<longrightarrow>
               SetMessageReaction chatId mid x \<in> set (calls (handleMessage cfg w ctx body r st))
               \<and> \<lparr>log_event = js ''ERROR'', log_type = Some (js ''SYSTEM''),
                    log_text = Some (js ''Reaction failed'' @ js '': '' @ e),
                    log_user_id = Some (from_id sender)\<rparr>
                   \<in> set (logs (handleMessage cfg w ctx body r st))))
   \<and> same_effects (handleMessage cfg (w\<lparr>setReaction := Throws e\<rparr>) ctx body r st)
                    (handleMessage cfg (w\<lparr>setReaction := Returns ()\<rparr>) ctx body r st)"
proof (intro conjI impI)
  show "same_effects (handleMessage cfg (w\<lparr>setReaction := Throws e\<rparr>) ctx body r st)
                    (handleMessage cfg (w\<lparr>setReaction := Returns ()\<rparr>) ctx body r st)"
    by (rule handleMessage_same)
next
  assume a: "setReaction w = Throws e \<and> chat_id ctx = Some chatId \<and> chatId \<noteq> 0
      \<and> from_user ctx = Some sender \<and> from_id sender \<noteq> 0
      \<and> typing1 w = Returns () \<and> backend w = Returns (Some ai) \<and> ai \<noteq> []
      \<and> extractCommand ai reactionPattern = (Str x, clean)
      \<and> extractCommand clean sendGifPattern = (g, final) \<and> final \<noteq> []
      \<and> typing2 w = Returns () \<and> reply w = Returns sent"
  let ?st2 = "logEvent (js ''RESPONSE'') (Some (js ''text'')) (Some ai) (Some (from_id sender))
              (do_call (Post (AI_URL cfg) \<lparr>model = AI_MODEL cfg,
                  messages = ai_messages cfg (userName sender @ js '': '' @ body) (loadContext r chatId st)\<rparr>)
                (do_call (SendChatAction chatId (js ''typing'')) st))"
  let ?st3 = "snd (handleReaction w ctx (Str x) ?st2)"
  from a have e1: "extractCommand ai reactionPattern = (Str x, clean)"
    and e2: "extractCommand clean sendGifPattern = (g, final)" and ne: "final \<noteq> []"
    and t2: "typing2 w = Returns ()" and rp: "reply w = Returns sent" by simp_all
  from a have "handleMessage cfg w ctx body r st
         = respond w ctx chatId (from_id sender) (loadContext r chatId st) body r ai ?st2"
    by (intro handleMessage_answer) simp_all
  then have h: "handleMessage cfg w ctx body r st
         = deliver w ctx chatId (from_id sender) (loadContext r chatId st) body r g final ?st3"
    unfolding respond_unfold [OF e1 e2] using ne by simp
  show "\<exists>pre. calls (handleMessage cfg w ctx body r st)
                   = pre @ [Reply (escapeMarkdown final) (message_id ctx)]"
    unfolding h deliver_ok(1) [OF t2 rp]
    by (rule exI [of _ "calls ?st3 @ [SendChatAction chatId (js ''typing'')]"]) simp
  {
    assume r
    then show "messageContexts (handleMessage cfg w ctx body r st) chatId
                   = Some (slice_last 18 (loadContext True chatId st)
                           @ [\<lparr>role = js ''user'', content = body\<rparr>,
                              \<lparr>role = js ''assistant'', content = final\<rparr>])"
      unfolding h using deliver_ok(3) [OF t2 rp, of r ctx chatId "from_id sender" "loadContext r chatId st" body g final ?st3]
      by simp
  }
  show "\<forall>mid. message_id ctx = Some mid \<and> mid \<noteq> 0 \<longrightarrow>
               SetMessageReaction chatId mid x \<in> set (calls (handleMessage cfg w ctx body r st))
               \<and> \<lparr>log_event = js ''ERROR'', log_type = Some (js ''SYSTEM''),
                    log_text = Some (js ''Reaction failed'' @ js '': '' @ e),
                    log_user_id = Some (from_id sender)\<rparr>
                   \<in> set (logs (handleMessage cfg w ctx body r st))"
  proof (intro allI impI)
    fix mid assume m: "message_id ctx = Some mid \<and> mid \<noteq> 0"
    from e1 have "reactionPattern ai \<noteq> None"
      by (auto simp: extractCommand_def split: option.splits)
    then obtain mt where "reactionPattern ai = Some mt" by blast
    from extract_reaction_match [OF this] e1 have xne: "x \<noteq> []" by auto
    have "handleReaction w ctx (Str x) ?st2
         = (False, handleError (js ''Reaction failed'') e (map_option from_id (from_user ctx))
                     (do_call (SetMessageReaction chatId mid x) ?st2))"
      using a m xne by (intro handleReaction_throws) simp_all
    then have 3: "?st3 = handleError (js ''Reaction failed'') e (Some (from_id sender))
                     (do_call (SetMessageReaction chatId mid x) ?st2)"
      using a by simp
    show "SetMessageReaction chatId mid x \<in> set (calls (handleMessage cfg w ctx body r st))
               \<and> \<lparr>log_event = js ''ERROR'', log_type = Some (js ''SYSTEM''),
                    log_text = Some (js ''Reaction failed'' @ js '': '' @ e),
                    log_user_id = Some (from_id sender)\<rparr>
                   \<in> set (logs (handleMessage cfg w ctx body r st))"
      unfolding h deliver_ok(1) [OF t2 rp] deliver_ok(2) [OF t2 rp] 3
      by (simp add: handleError_def logEvent_def)
  qed
qed

theorem reaction_failure_isolated_witness:
  "setReaction ((world_ok (js ''hi %Reaction(x)%''))\<lparr>setReaction := Throws (js ''boom'')\<rparr>)
     = Throws (js ''boom'')
   \<and> extractCommand (js ''hi %Reaction(x)%'') reactionPattern = (Str (js ''x''), js ''hi'')
   \<and> last (calls (handleMessage example_config
          ((world_ok (js ''hi %Reaction(x)%''))\<lparr>setReaction := Throws (js ''boom'')\<rparr>)
          example_ctx (js ''hey'') True initial_state)) = Reply (js ''hi'') (Some 11)
   \<and> SetMessageReaction 7 11 (js ''x'') \<in> set (calls (handleMessage example_config
          ((world_ok (js ''hi %Reaction(x)%''))\<lparr>setReaction := Throws (js ''boom'')\<rparr>)
          example_ctx (js ''hey'') True initial_state))
   \<and> \<lparr>log_event = js ''ERROR'', log_type = Some (js ''SYSTEM''),
        log_text = Some (js ''Reaction failed: boom''), log_user_id = Some 3\<rparr>
       \<in> set (logs (handleMessage example_config
          ((world_ok (js ''hi %Reaction(x)%''))\<lparr>setReaction := Throws (js ''boom'')\<rparr>)
          example_ctx (js ''hey'') True initial_state))
   \<and> messageContexts (handleMessage example_config
          ((world_ok (js ''hi %Reaction(x)%''))\<lparr>setReaction := Throws (js ''boom'')\<rparr>)
          example_ctx (js ''hey'') True initial_state) 7
       = Some [\<lparr>role = js ''user'', content = js ''hey''\<rparr>,
               \<lparr>role = js ''assistant'', content = js ''hi''\<rparr>]"
proof -
  let ?w = "(world_ok (js ''hi %Reaction(x)%''))\<lparr>setReaction := Throws (js ''boom'')\<rparr>"
  let ?sender = "\<lparr>from_id = 3, first_name = js ''Al'', last_name = None\<rparr>"
  let ?h = "handleMessage example_config ?w example_ctx (js ''hey'') True initial_state"
  have s: "setReaction ?w = Throws (js ''boom'')" by simp
  have e1: "extractCommand (js ''hi %Reaction(x)%'') reactionPattern = (Str (js ''x''), js ''hi'')"
    by (simp add: extractCommand_def reactionPattern_def reaction_at_def js_def trim_def isWhiteSpace_def)
  have e2: "extractCommand (js ''hi'') sendGifPattern = (Null, js ''hi'')"
    by (simp add: extractCommand_def sendGifPattern_def sendGif_at_def js_def)
  have c: "chat_id example_ctx = Some 7 \<and> (7::int) \<noteq> 0 \<and> from_user example_ctx = Some ?sender
        \<and> from_id ?sender \<noteq> 0 \<and> message_id example_ctx = Some 11"
    by (simp add: example_ctx_def)
  have w: "typing1 ?w = Returns () \<and> backend ?w = Returns (Some (js ''hi %Reaction(x)%''))
        \<and> typing2 ?w = Returns () \<and> reply ?w = Returns 100"
    by (simp add: world_ok_def)
  have ne: "js ''hi %Reaction(x)%'' \<noteq> [] \<and> js ''hi'' \<noteq> []" by (simp add: js_def)
  note main = reaction_failure_isolated [where w = ?w and e = "js ''boom''" and ctx = example_ctx
      and chatId = 7 and sender = ?sender and ai = "js ''hi %Reaction(x)%''" and x = "js ''x''"
      and clean = "js ''hi''" and g = Null and final = "js ''hi''" and sent = 100
      and cfg = example_config and body = "js ''hey''" and r = True and st = initial_state]
  have hyp: "setReaction ?w = Throws (js ''boom'') \<and> chat_id example_ctx = Some 7 \<and> (7::int) \<noteq> 0
      \<and> from_user example_ctx = Some ?sender \<and> from_id ?sender \<noteq> 0
      \<and> typing1 ?w = Returns () \<and> backend ?w = Returns (Some (js ''hi %Reaction(x)%''))
      \<and> js ''hi %Reaction(x)%'' \<noteq> []
      \<and> extractCommand (js ''hi %Reaction(x)%'') reactionPattern = (Str (js ''x''), js ''hi'')
      \<and> extractCommand (js ''hi'') sendGifPattern = (Null, js ''hi'') \<and> js ''hi'' \<noteq> []
      \<and> typing2 ?w = Returns () \<and> reply ?w = Returns 100"
    by (intro conjI) (simp_all only: s e1 e2 c w ne, simp_all)
  from main [THEN conjunct1, THEN mp, OF hyp]
  have concl: "(\<exists>pre. calls ?h = pre @ [Reply (escapeMarkdown (js ''hi'')) (message_id example_ctx)])
        \<and> (True \<longrightarrow> messageContexts ?h 7
                   = Some (slice_last 18 (loadContext True 7 initial_state)
                           @ [\<lparr>role = js ''user'', content = js ''hey''\<rparr>,
                              \<lparr>role = js ''assistant'', content = js ''hi''\<rparr>]))
        \<and> (\<forall>mid. message_id example_ctx = Some mid \<and> mid \<noteq> 0 \<longrightarrow>
               SetMessageReaction 7 mid (js ''x'') \<in> set (calls ?h)
               \<and> \<lparr>log_event = js ''ERROR'', log_type = Some (js ''SYSTEM''),
                    log_text = Some (js ''Reaction failed'' @ js '': '' @ js ''boom''),
                    log_user_id = Some (from_id ?sender)\<rparr> \<in> set (logs ?h))" .
  from concl have 1: "\<exists>pre. calls ?h = pre @ [Reply (escapeMarkdown (js ''hi'')) (message_id example_ctx)]"
    by (rule conjunct1)
  from concl [THEN conjunct2, THEN conjunct1]
  have 2: "messageContexts ?h 7
              = Some (slice_last 18 (loadContext True 7 initial_state)
                      @ [\<lparr>role = js ''user'', content = js ''hey''\<rparr>,
                         \<lparr>role = js ''assistant'', content = js ''hi''\<rparr>])"
    by (rule mp) (rule TrueI)
  have mid: "message_id example_ctx = Some 11 \<and> (11::int) \<noteq> 0"
    by (simp add: example_ctx_def)
  from concl [THEN conjunct2, THEN conjunct2, THEN spec, THEN mp, OF mid]
  have 3: "SetMessageReaction 7 11 (js ''x'') \<in> set (calls ?h)"
    and 4: "\<lparr>log_event = js ''ERROR'', log_type = Some (js ''SYSTEM''),
              log_text = Some (js ''Reaction failed'' @ js '': '' @ js ''boom''),
              log_user_id = Some (from_id ?sender)\<rparr> \<in> set (logs ?h)"
    by (rule conjunct1, rule conjunct2)
  have esc: "escapeMarkdown (js ''hi'') = js ''hi''"
    by (simp add: escapeMarkdown_def reserved_def js_def)
  from 1 have l: "last (calls ?h) = Reply (js ''hi'') (Some 11)"
    using c by (auto simp: esc)
  from 2 have m: "messageContexts ?h 7
       = Some [\<lparr>role = js ''user'', content = js ''hey''\<rparr>,
               \<lparr>role = js ''assistant'', content = js ''hi''\<rparr>]"
    by (simp add: loadContext_def initial_state_def slice_last_def)
  have t: "js ''Reaction failed'' @ js '': '' @ js ''boom'' = js ''Reaction failed: boom''"
    by (simp add: js_def)
  from 4 have g: "\<lparr>log_event = js ''ERROR'', log_type = Some (js ''SYSTEM''),
        log_text = Some (js ''Reaction failed: boom''), log_user_id = Some 3\<rparr> \<in> set (logs ?h)"
    unfolding t by simp
  from s e1 l 3 g m show ?thesis by blast
qed

end
